theory Spec2Isabelle
  imports Complex_Main "HOL-Library.Multiset" "HOL-Library.AList"
begin

section \<open>Bellevue traffic simulation: a shallow embedding\<close>

text \<open>
  The simulation core of the package \<^verbatim>\<open>bellevue_traffic\<close> is embedded function by
  function. Python floats are modelled as real numbers (rounding and overflow are not
  modelled), extended by the infinities and NaN where the source can produce them. Every
  exception of the source is a value of \<open>py_error\<close>, carried in the left summand of a
  sum type.
\<close>

datatype py_error =
  IndexError | KeyError | ZeroDivisionError | ValueError | TypeError | AttributeError

subsection \<open>Floats with infinities and NaN\<close>

text \<open>
  A numpy \<^verbatim>\<open>float64\<close>: a real number, an infinity or NaN. numpy does not raise on a
  division by zero (it warns and returns an infinity, or NaN for 0/0); the operations
  below follow IEEE 754, with every zero read as +0.0.
\<close>

datatype npfloat = Fin real | PInf | MInf | NaN

fun np_neg :: "npfloat \<Rightarrow> npfloat" where
  "np_neg (Fin a) = Fin (- a)"
| "np_neg PInf = MInf"
| "np_neg MInf = PInf"
| "np_neg NaN = NaN"

fun np_add :: "npfloat \<Rightarrow> npfloat \<Rightarrow> npfloat" where
  "np_add (Fin a) (Fin b) = Fin (a + b)"
| "np_add (Fin a) PInf = PInf"
| "np_add (Fin a) MInf = MInf"
| "np_add PInf (Fin b) = PInf"
| "np_add MInf (Fin b) = MInf"
| "np_add PInf PInf = PInf"
| "np_add MInf MInf = MInf"
| "np_add PInf MInf = NaN"
| "np_add MInf PInf = NaN"
| "np_add NaN y = NaN"
| "np_add x NaN = NaN"

definition np_sub :: "npfloat \<Rightarrow> npfloat \<Rightarrow> npfloat" where
  "np_sub x y = np_add x (np_neg y)"

fun np_mul :: "npfloat \<Rightarrow> npfloat \<Rightarrow> npfloat" where
  "np_mul (Fin a) (Fin b) = Fin (a * b)"
| "np_mul (Fin a) PInf = (if a > 0 then PInf else if a < 0 then MInf else NaN)"
| "np_mul (Fin a) MInf = (if a > 0 then MInf else if a < 0 then PInf else NaN)"
| "np_mul PInf (Fin b) = (if b > 0 then PInf else if b < 0 then MInf else NaN)"
| "np_mul MInf (Fin b) = (if b > 0 then MInf else if b < 0 then PInf else NaN)"
| "np_mul PInf PInf = PInf"
| "np_mul MInf MInf = PInf"
| "np_mul PInf MInf = MInf"
| "np_mul MInf PInf = MInf"
| "np_mul NaN y = NaN"
| "np_mul x NaN = NaN"

fun np_div :: "npfloat \<Rightarrow> npfloat \<Rightarrow> npfloat" where
  "np_div (Fin a) (Fin b) =
     (if b \<noteq> 0 then Fin (a / b)
      else if a > 0 then PInf else if a < 0 then MInf else NaN)"
| "np_div (Fin a) PInf = Fin 0"
| "np_div (Fin a) MInf = Fin 0"
| "np_div PInf (Fin b) = (if b \<ge> 0 then PInf else MInf)"
| "np_div MInf (Fin b) = (if b \<ge> 0 then MInf else PInf)"
| "np_div PInf PInf = NaN"
| "np_div MInf MInf = NaN"
| "np_div PInf MInf = NaN"
| "np_div MInf PInf = NaN"
| "np_div NaN y = NaN"
| "np_div x NaN = NaN"

text \<open>\<^verbatim>\<open>x ** n\<close> for a positive integer \<open>n\<close>.\<close>

fun np_power :: "npfloat \<Rightarrow> nat \<Rightarrow> npfloat" where
  "np_power (Fin a) n = Fin (a ^ n)"
| "np_power PInf n = PInf"
| "np_power MInf n = (if even n then PInf else MInf)"
| "np_power NaN n = NaN"

text \<open>
  Python's builtin \<^verbatim>\<open>max(0, x)\<close> keeps its first argument unless \<^verbatim>\<open>x > 0\<close>, and a
  comparison with NaN is false.
\<close>

fun py_max0 :: "npfloat \<Rightarrow> npfloat" where
  "py_max0 (Fin a) = Fin (max 0 a)"
| "py_max0 PInf = PInf"
| "py_max0 MInf = Fin 0"
| "py_max0 NaN = Fin 0"

text \<open>
  What \<^verbatim>\<open>np.clip\<close> returns for finite bounds: a number, or NaN when the clipped value
  is NaN.
\<close>

datatype clipped = Num real | NotANumber

subsection \<open>traffic\_signals.py\<close>

datatype SignalState = RED | YELLOW | GREEN

record SignalPhase =
  name :: string
  duration :: real
  green_approaches :: "string list"
  yellow_duration :: real

record TrafficSignal =
  signal_id :: int
  node_id :: nat
  signal_position :: "real \<times> real"
  phases :: "SignalPhase list"
  coordinated :: bool
  offset :: real
  current_phase_index :: nat
  current_state :: SignalState
  time_in_phase :: real
  cycle_length :: real
  vehicles_served :: nat
  total_delay :: real

text \<open>
  \<^verbatim>\<open>TrafficSignal.__init__\<close>: the constructor stores its arguments, starts in phase 0,
  state RED with the timer at 0, and sums the phase durations. It contains no check and
  no \<^verbatim>\<open>raise\<close>; the result is a sum type only so that "construction fails" can be
  stated.
\<close>

definition TrafficSignal_init ::
  "int \<Rightarrow> nat \<Rightarrow> real \<times> real \<Rightarrow> SignalPhase list \<Rightarrow> bool \<Rightarrow> real \<Rightarrow> py_error + TrafficSignal" where
  "TrafficSignal_init sid nid pos phs coord off =
     Inr \<lparr> signal_id = sid, node_id = nid, signal_position = pos, phases = phs,
           coordinated = coord, offset = off,
           current_phase_index = 0, current_state = RED, time_in_phase = 0,
           cycle_length = sum_list (map (\<lambda>phase. duration phase + yellow_duration phase) phs),
           vehicles_served = 0, total_delay = 0 \<rparr>"

text \<open>
  \<^verbatim>\<open>get_current_phase\<close> reads \<^verbatim>\<open>self.phases[self.current_phase_index]\<close>; the index is
  never negative (it starts at 0 and is only assigned a remainder), so it is a natural
  number here, and a read past the end raises IndexError.
\<close>

definition get_current_phase :: "TrafficSignal \<Rightarrow> py_error + SignalPhase" where
  "get_current_phase self =
     (if current_phase_index self < length (phases self)
      then Inr (phases self ! current_phase_index self)
      else Inl IndexError)"

definition get_state_for_approach :: "TrafficSignal \<Rightarrow> string \<Rightarrow> py_error + SignalState" where
  "get_state_for_approach self approach =
     (case get_current_phase self of
        Inl e \<Rightarrow> Inl e
      | Inr current_phase \<Rightarrow>
          if approach \<in> set (green_approaches current_phase)
          then Inr (current_state self)
          else Inr RED)"

text \<open>
  \<^verbatim>\<open>TrafficSignal.update\<close>: the timer is advanced first, the current phase is read
  (which can raise), then exactly one branch of the \<^verbatim>\<open>if/elif/elif\<close> chain runs.
\<close>

definition update :: "TrafficSignal \<Rightarrow> real \<Rightarrow> py_error + TrafficSignal" where
  "update self time_step =
     (let s = self\<lparr>time_in_phase := time_in_phase self + time_step\<rparr> in
      case get_current_phase s of
        Inl e \<Rightarrow> Inl e
      | Inr current_phase \<Rightarrow>
          if current_state s = GREEN then
            (if time_in_phase s \<ge> duration current_phase
             then Inr (s\<lparr>current_state := YELLOW, time_in_phase := 0\<rparr>)
             else Inr s)
          else if current_state s = YELLOW then
            (if time_in_phase s \<ge> yellow_duration current_phase
             then Inr (s\<lparr>current_state := RED,
                         current_phase_index := (current_phase_index s + 1) mod length (phases s),
                         time_in_phase := 0\<rparr>)
             else Inr s)
          else
            (if time_in_phase s \<ge> 1
             then Inr (s\<lparr>current_state := GREEN, time_in_phase := 0\<rparr>)
             else Inr s))"

definition can_vehicle_proceed :: "TrafficSignal \<Rightarrow> string \<Rightarrow> real \<Rightarrow> real \<Rightarrow> py_error + bool" where
  "can_vehicle_proceed self approach distance_to_signal vehicle_speed =
     (case get_state_for_approach self approach of
        Inl e \<Rightarrow> Inl e
      | Inr state \<Rightarrow>
          if state = GREEN then Inr True
          else if state = YELLOW then
            (let stopping_distance = (vehicle_speed ^ 2) / (2 * 4.5)
             in Inr (distance_to_signal < stopping_distance))
          else Inr False)"

text \<open>
  A run of \<^verbatim>\<open>update\<close> calls, one per tick, as \<^verbatim>\<open>update_all_signals\<close> issues them for one
  signal: the list of the signal's successive values, or the first exception.
\<close>

fun update_trace :: "TrafficSignal \<Rightarrow> real list \<Rightarrow> py_error + TrafficSignal list" where
  "update_trace s [] = Inr []"
| "update_trace s (dt # dts) =
     (case update s dt of
        Inl e \<Rightarrow> Inl e
      | Inr s' \<Rightarrow> (case update_trace s' dts of
                     Inl e \<Rightarrow> Inl e
                   | Inr tr \<Rightarrow> Inr (s' # tr)))"

text \<open>The cyclic order the specification names, written from its words.\<close>

fun spec_next_state :: "SignalState \<Rightarrow> SignalState" where
  "spec_next_state GREEN = YELLOW"
| "spec_next_state YELLOW = RED"
| "spec_next_state RED = GREEN"

text \<open>
  One step of the specified signal machine, written from the specification's words: from
  \<open>s\<close>, after \<open>dt\<close> more seconds, the signal is \<open>s'\<close>.
\<close>

definition spec_signal_step :: "TrafficSignal \<Rightarrow> real \<Rightarrow> TrafficSignal \<Rightarrow> bool" where
  "spec_signal_step s dt s' =
     (let t = time_in_phase s + dt; p = phases s ! current_phase_index s;
          threshold = (case current_state s of GREEN \<Rightarrow> duration p
                       | YELLOW \<Rightarrow> yellow_duration p | RED \<Rightarrow> 1)
      in if t \<ge> threshold
         then s' = s\<lparr>current_state := spec_next_state (current_state s),
                     current_phase_index :=
                       (if current_state s = YELLOW
                        then (current_phase_index s + 1) mod length (phases s)
                        else current_phase_index s),
                     time_in_phase := 0\<rparr>
         else s' = s\<lparr>time_in_phase := t\<rparr>)"

fun spec_signal_run :: "TrafficSignal \<Rightarrow> real list \<Rightarrow> TrafficSignal list \<Rightarrow> bool" where
  "spec_signal_run s [] tr = (tr = [])"
| "spec_signal_run s (dt # dts) tr =
     (case tr of [] \<Rightarrow> False
      | s' # tr' \<Rightarrow> spec_signal_step s dt s' \<and> spec_signal_run s' dts tr')"

subsection \<open>vehicles.py\<close>

datatype VehicleType = CAR | BUS | TRUCK | MOTORCYCLE

type_synonym node = nat
type_synonym edge = "node \<times> node \<times> nat"
type_synonym coord = "real \<times> real"

record VehicleStats =
  total_distance :: real
  total_time :: real
  stops :: nat
  lane_changes :: nat
  average_speed :: real
  stats_max_speed :: real
  time_in_congestion :: real

text \<open>
  The attributes of \<^verbatim>\<open>Vehicle\<close>. The source's \<^verbatim>\<open>id\<close>, \<^verbatim>\<open>type\<close>, \<^verbatim>\<open>length\<close> and
  \<^verbatim>\<open>stats.max_speed\<close> are \<open>vid\<close>, \<open>vtype\<close>, \<open>vlength\<close> and \<open>stats_max_speed\<close>. The
  attributes only a bus or a truck carries (stops, passengers, cargo weight) are never
  read by the simulation and are left out.

  The attribute \<^verbatim>\<open>speed\<close> is assigned in two places only: the constructor sets it to
  the Python float \<^verbatim>\<open>0.0\<close>, and \<^verbatim>\<open>_update_vehicle_position\<close> sets it to
  \<^verbatim>\<open>max(0.0, x)\<close> for a numpy float \<open>x\<close>, which is \<open>x\<close> itself when \<open>x > 0\<close> and the
  Python float \<^verbatim>\<open>0.0\<close> otherwise. So the real number \<open>speed\<close> stands for the Python
  float \<^verbatim>\<open>0.0\<close> when it is 0 and for a numpy float otherwise. The attribute
  \<^verbatim>\<open>acceleration\<close> holds what \<^verbatim>\<open>np.clip\<close> returned.
\<close>

record Vehicle =
  vid :: nat
  vtype :: VehicleType
  spawn_time :: real
  origin :: coord
  destination :: coord
  route :: "node list"
  position :: coord
  current_edge :: "edge option"
  current_lane :: nat
  speed :: real
  acceleration :: clipped
  max_speed :: real
  max_acceleration :: real
  max_deceleration :: real
  vlength :: real
  width :: real
  desired_time_headway :: real
  min_spacing :: real
  politeness :: real
  aggressiveness :: real
  stats :: VehicleStats
  completed :: bool
  waiting_at_signal :: bool

definition VehicleStats_init :: VehicleStats where
  "VehicleStats_init =
     \<lparr> total_distance = 0, total_time = 0, stops = 0, lane_changes = 0,
       average_speed = 0, stats_max_speed = 0, time_in_congestion = 0 \<rparr>"

text \<open>\<^verbatim>\<open>Vehicle.__init__\<close>, the constructor of the base class.\<close>

definition Vehicle_init ::
  "nat \<Rightarrow> VehicleType \<Rightarrow> real \<Rightarrow> coord \<Rightarrow> coord \<Rightarrow> node list \<Rightarrow> Vehicle" where
  "Vehicle_init vehicle_id vehicle_type spawn_t orig dest rt =
     \<lparr> vid = vehicle_id, vtype = vehicle_type, spawn_time = spawn_t,
       origin = orig, destination = dest, route = rt,
       position = orig, current_edge = None, current_lane = 0,
       speed = 0, acceleration = Num 0,
       max_speed = 0, max_acceleration = 0, max_deceleration = 0,
       vlength = 0, width = 0,
       desired_time_headway = 1.5, min_spacing = 2.0,
       politeness = 0.5, aggressiveness = 0.5,
       stats = VehicleStats_init,
       completed = False, waiting_at_signal = False \<rparr>"

text \<open>\<^verbatim>\<open>np.clip(a, a_min, a_max)\<close> is \<^verbatim>\<open>minimum(a_max, maximum(a, a_min))\<close>.\<close>

definition np_clip :: "real \<Rightarrow> real \<Rightarrow> real \<Rightarrow> real" where
  "np_clip a a_min a_max = min a_max (max a a_min)"

text \<open>The same on a value that may be infinite or NaN; NaN is passed through.\<close>

fun np_clip_x :: "npfloat \<Rightarrow> real \<Rightarrow> real \<Rightarrow> clipped" where
  "np_clip_x (Fin a) a_min a_max = Num (np_clip a a_min a_max)"
| "np_clip_x PInf a_min a_max = Num a_max"
| "np_clip_x MInf a_min a_max = Num (min a_max a_min)"
| "np_clip_x NaN a_min a_max = NotANumber"

text \<open>
  The four subclasses. Each constructor draws its two personality traits from
  \<^verbatim>\<open>np.random.normal\<close>; the two draws are the arguments \<open>z_aggr\<close> and \<open>z_pol\<close>, and the
  constructor clips them as the source does.
\<close>

definition Car :: "nat \<Rightarrow> real \<Rightarrow> coord \<Rightarrow> coord \<Rightarrow> node list \<Rightarrow> real \<Rightarrow> real \<Rightarrow> Vehicle" where
  "Car vehicle_id spawn_t orig dest rt z_aggr z_pol =
     (Vehicle_init vehicle_id CAR spawn_t orig dest rt)
       \<lparr> max_speed := 120 / 3.6, max_acceleration := 2.5, max_deceleration := 4.5,
         vlength := 4.5, width := 2.0,
         aggressiveness := np_clip z_aggr 0.2 0.8,
         politeness := np_clip z_pol 0.2 0.8 \<rparr>"

definition Bus :: "nat \<Rightarrow> real \<Rightarrow> coord \<Rightarrow> coord \<Rightarrow> node list \<Rightarrow> real \<Rightarrow> real \<Rightarrow> Vehicle" where
  "Bus vehicle_id spawn_t orig dest rt z_aggr z_pol =
     (Vehicle_init vehicle_id BUS spawn_t orig dest rt)
       \<lparr> max_speed := 90 / 3.6, max_acceleration := 1.2, max_deceleration := 3.0,
         vlength := 12.0, width := 2.5,
         aggressiveness := np_clip z_aggr 0.1 0.5,
         politeness := np_clip z_pol 0.5 0.9 \<rparr>"

definition Truck :: "nat \<Rightarrow> real \<Rightarrow> coord \<Rightarrow> coord \<Rightarrow> node list \<Rightarrow> real \<Rightarrow> real \<Rightarrow> Vehicle" where
  "Truck vehicle_id spawn_t orig dest rt z_aggr z_pol =
     (Vehicle_init vehicle_id TRUCK spawn_t orig dest rt)
       \<lparr> max_speed := 100 / 3.6, max_acceleration := 0.8, max_deceleration := 2.5,
         vlength := 15.0, width := 2.5,
         aggressiveness := np_clip z_aggr 0.1 0.4,
         politeness := np_clip z_pol 0.4 0.8 \<rparr>"

definition Motorcycle :: "nat \<Rightarrow> real \<Rightarrow> coord \<Rightarrow> coord \<Rightarrow> node list \<Rightarrow> real \<Rightarrow> real \<Rightarrow> Vehicle" where
  "Motorcycle vehicle_id spawn_t orig dest rt z_aggr z_pol =
     (Vehicle_init vehicle_id MOTORCYCLE spawn_t orig dest rt)
       \<lparr> max_speed := 140 / 3.6, max_acceleration := 3.5, max_deceleration := 5.0,
         vlength := 2.0, width := 0.8,
         aggressiveness := np_clip z_aggr 0.4 0.95,
         politeness := np_clip z_pol 0.2 0.7 \<rparr>"

text \<open>
  \<^verbatim>\<open>Vehicle.update_position\<close>: the Euclidean distance between the old and the new
  position is added to the travelled distance.
\<close>

definition update_position :: "Vehicle \<Rightarrow> coord \<Rightarrow> real \<Rightarrow> Vehicle" where
  "update_position self new_position time_step =
     (let distance = sqrt ((fst new_position - fst (position self)) ^ 2
                         + (snd new_position - snd (position self)) ^ 2);
          st1 = (stats self)\<lparr> total_distance := total_distance (stats self) + distance,
                              total_time := total_time (stats self) + time_step \<rparr>;
          st2 = (if total_time st1 > 0
                 then st1\<lparr> average_speed := total_distance st1 / total_time st1 \<rparr>
                 else st1);
          st3 = (if speed self > stats_max_speed st2
                 then st2\<lparr> stats_max_speed := speed self \<rparr>
                 else st2)
      in self\<lparr> position := new_position, stats := st3 \<rparr>)"

text \<open>
  \<^verbatim>\<open>Vehicle.calculate_acceleration\<close>. The desired speed is a Python float. The first
  division, \<^verbatim>\<open>self.speed / desired_speed\<close>, is a division of Python floats when the
  speed is the Python float \<^verbatim>\<open>0.0\<close>, and then a desired speed of 0 raises
  ZeroDivisionError; for a moving vehicle the speed is a numpy float, the quotient by 0
  is an infinity, and the computation goes on (for a vehicle of one of the four classes
  it ends in \<open>- max_deceleration\<close>, the lower bound of the clip). The divisor
  \<^verbatim>\<open>2 * np.sqrt(...)\<close> of the spacing term is a numpy float, so that division never
  raises. The leader term is subtracted only under the guard \<^verbatim>\<open>leader_distance > 0\<close>.
\<close>

definition calculate_acceleration ::
  "Vehicle \<Rightarrow> real option \<Rightarrow> real option \<Rightarrow> real \<Rightarrow> py_error + clipped" where
  "calculate_acceleration self leader_distance leader_speed desired_speed =
     (if speed self = 0 \<and> desired_speed = 0 then Inl ZeroDivisionError
      else
        let accel = np_mul (Fin (max_acceleration self))
                      (np_sub (Fin 1)
                         (np_power (np_div (Fin (speed self)) (Fin desired_speed)) 4));
            accel2 =
              (case (leader_distance, leader_speed) of
                 (Some ld, Some ls) \<Rightarrow>
                   let desired_spacing =
                         np_add (Fin (min_spacing self))
                           (py_max0
                              (np_add (Fin (speed self * desired_time_headway self))
                                 (np_div (Fin (speed self * (speed self - ls)))
                                    (Fin (2 * sqrt \<bar>max_acceleration self
                                                       * max_deceleration self\<bar>)))))
                   in if ld > 0
                      then np_sub accel
                             (np_mul (Fin (max_acceleration self))
                                (np_power (np_div desired_spacing (Fin ld)) 2))
                      else accel
               | _ \<Rightarrow> accel);
            accel3 = np_mul accel2 (Fin (0.5 + 0.5 * aggressiveness self))
        in Inr (np_clip_x accel3 (- max_deceleration self) (max_acceleration self)))"

text \<open>\<^verbatim>\<open>Vehicle.should_change_lane\<close>.\<close>

definition should_change_lane :: "Vehicle \<Rightarrow> real \<Rightarrow> real \<Rightarrow> bool \<Rightarrow> bool" where
  "should_change_lane self current_lane_speed target_lane_speed target_lane_safe =
     (if \<not> target_lane_safe then False
      else let threshold = 0.5 * (1 - politeness self);
               advantage = (target_lane_speed - current_lane_speed)
                           * (0.5 + 0.5 * aggressiveness self)
           in advantage > threshold)"

subsection \<open>road\_network.py\<close>

text \<open>
  The road graph is loaded from outside (OpenStreetMap or a cache) and is read-only for
  the run. Of the loaded graph the simulation reads: whether an edge \<^verbatim>\<open>graph[u][v][key]\<close>
  exists and its \<^verbatim>\<open>length\<close> attribute if it has one (\<open>graph_edges\<close>), the coordinates of
  a node (\<open>graph_nodes\<close>), and the three attribute tables filled by
  \<^verbatim>\<open>_process_network_attributes\<close>. The two library calls of \<^verbatim>\<open>find_route\<close>
  (\<^verbatim>\<open>nearest_nodes\<close>, and \<^verbatim>\<open>shortest_path\<close>, where \<open>None\<close> stands for NetworkXNoPath) are
  fields of the record.
\<close>

record BellevueRoadNetwork =
  graph_loaded :: bool
  graph_edges :: "edge \<rightharpoonup> real option"
  graph_nodes :: "node \<rightharpoonup> coord"
  speed_limits :: "edge \<rightharpoonup> real"
  lane_counts :: "edge \<rightharpoonup> int"
  road_types :: "edge \<rightharpoonup> string"
  nearest_nodes :: "coord \<Rightarrow> node"
  shortest_path :: "node \<Rightarrow> node \<Rightarrow> node list option"

record EdgeInfo =
  speed_limit :: real
  lanes :: int
  road_type :: string
  edge_length :: real

definition find_route :: "BellevueRoadNetwork \<Rightarrow> coord \<Rightarrow> coord \<Rightarrow> py_error + node list" where
  "find_route self orig dest =
     (if \<not> graph_loaded self then Inl ValueError
      else let orig_node = nearest_nodes self orig;
               dest_node = nearest_nodes self dest
           in case shortest_path self orig_node dest_node of
                Some rt \<Rightarrow> Inr rt
              | None \<Rightarrow> Inr [])"

definition get_edge_info :: "BellevueRoadNetwork \<Rightarrow> node \<Rightarrow> node \<Rightarrow> nat \<Rightarrow> py_error + EdgeInfo" where
  "get_edge_info self u v key =
     (if \<not> graph_loaded self then Inl TypeError
      else case graph_edges self (u, v, key) of
             None \<Rightarrow> Inl KeyError
           | Some len \<Rightarrow>
               Inr \<lparr> speed_limit = (case speed_limits self (u, v, key) of
                                      Some x \<Rightarrow> x | None \<Rightarrow> 50 / 3.6),
                     lanes = (case lane_counts self (u, v, key) of Some n \<Rightarrow> n | None \<Rightarrow> 1),
                     road_type = (case road_types self (u, v, key) of
                                    Some t \<Rightarrow> t | None \<Rightarrow> ''residential''),
                     edge_length = (case len of Some x \<Rightarrow> x | None \<Rightarrow> 100) \<rparr>)"

definition get_node_position :: "BellevueRoadNetwork \<Rightarrow> node \<Rightarrow> py_error + coord" where
  "get_node_position self n =
     (if \<not> graph_loaded self then Inl AttributeError
      else case graph_nodes self n of None \<Rightarrow> Inl KeyError | Some p \<Rightarrow> Inr p)"

subsection \<open>simulation.py\<close>

text \<open>
  The state of \<^verbatim>\<open>TrafficSimulation\<close>. Vehicle objects are shared between the dictionary
  \<^verbatim>\<open>self.vehicles\<close>, the per-edge lists and \<^verbatim>\<open>self.completed_vehicles\<close>, and they are
  mutated in place, so the objects live in an explicit store addressed by the vehicle id
  (ids are never reused, and \<^verbatim>\<open>Vehicle\<close> defines no \<^verbatim>\<open>__eq__\<close>, so membership in a list
  is identity). \<open>vehicles\<close> is the key sequence of the dictionary in insertion order;
  \<open>edge_vehicles\<close> is the \<^verbatim>\<open>defaultdict(list)\<close> as an association list in insertion
  order. The entries of \<^verbatim>\<open>self.stats\<close> are the fields \<open>stats_...\<close>.
\<close>

record TrafficSimulation =
  now :: real
  time_step :: real
  network :: BellevueRoadNetwork
  signals :: "node \<rightharpoonup> TrafficSignal"
  store :: "nat \<Rightarrow> Vehicle"
  vehicles :: "nat list"
  next_vehicle_id :: nat
  completed_vehicles :: "nat list"
  edge_vehicles :: "(edge \<times> nat list) list"
  stats_vehicles_spawned :: nat
  stats_vehicles_completed :: nat
  stats_total_travel_time :: real
  stats_total_distance :: real
  stats_total_stops :: nat

text \<open>
  The state after \<^verbatim>\<open>__init__\<close> and \<^verbatim>\<open>setup\<close>: the loaded network and the signals are
  given, every collection is empty and every counter is 0. No vehicle object exists yet;
  the store holds a blank record at every address.
\<close>

definition TrafficSimulation_init ::
  "real \<Rightarrow> BellevueRoadNetwork \<Rightarrow> (node \<rightharpoonup> TrafficSignal) \<Rightarrow> TrafficSimulation" where
  "TrafficSimulation_init dt net sigs =
     \<lparr> now = 0, time_step = dt, network = net, signals = sigs,
       store = (\<lambda>i. Vehicle_init i CAR 0 (0, 0) (0, 0) []),
       vehicles = [], next_vehicle_id = 0, completed_vehicles = [],
       edge_vehicles = [],
       stats_vehicles_spawned = 0, stats_vehicles_completed = 0,
       stats_total_travel_time = 0, stats_total_distance = 0, stats_total_stops = 0 \<rparr>"

text \<open>
  Reading \<^verbatim>\<open>self.edge_vehicles[e]\<close> on a \<^verbatim>\<open>defaultdict(list)\<close> returns the list stored
  under \<open>e\<close>, and first stores an empty list there when the key is missing (\<open>ev_touch\<close>).
\<close>

definition ev_get :: "(edge \<times> nat list) list \<Rightarrow> edge \<Rightarrow> nat list" where
  "ev_get ev e = (case map_of ev e of None \<Rightarrow> [] | Some l \<Rightarrow> l)"

definition ev_touch :: "(edge \<times> nat list) list \<Rightarrow> edge \<Rightarrow> (edge \<times> nat list) list" where
  "ev_touch ev e = AList.update e (ev_get ev e) ev"

text \<open>\<^verbatim>\<open>self.edge_vehicles[e].append(vehicle)\<close>\<close>

definition ev_append :: "(edge \<times> nat list) list \<Rightarrow> edge \<Rightarrow> nat \<Rightarrow> (edge \<times> nat list) list" where
  "ev_append ev e i = AList.update e (ev_get ev e @ [i]) ev"

text \<open>
  \<^verbatim>\<open>if vehicle in self.edge_vehicles[e]: self.edge_vehicles[e].remove(vehicle)\<close>;
  \<^verbatim>\<open>list.remove\<close> deletes the first occurrence.
\<close>

definition ev_remove :: "(edge \<times> nat list) list \<Rightarrow> edge \<Rightarrow> nat \<Rightarrow> (edge \<times> nat list) list" where
  "ev_remove ev e i =
     (if i \<in> set (ev_get ev e)
      then AList.update e (remove1 i (ev_get ev e)) ev
      else ev_touch ev e)"

text \<open>\<^verbatim>\<open>xs.index(x) if x in xs else -1\<close>, with \<open>None\<close> for -1.\<close>

fun py_index :: "'a list \<Rightarrow> 'a \<Rightarrow> nat option" where
  "py_index [] x = None"
| "py_index (y # ys) x = (if y = x then Some 0 else map_option Suc (py_index ys x))"

text \<open>
  \<^verbatim>\<open>_spawn_vehicle\<close>. \<open>z_aggr\<close> and \<open>z_pol\<close> are the two normal draws the vehicle's
  constructor makes. The early \<^verbatim>\<open>return\<close> for an unusable route comes after the id
  counter is advanced and before anything else is written.
\<close>

definition spawn_vehicle ::
  "TrafficSimulation \<Rightarrow> string \<Rightarrow> coord \<Rightarrow> coord \<Rightarrow> real \<Rightarrow> real \<Rightarrow> py_error + TrafficSimulation" where
  "spawn_vehicle self vehicle_type orig dest z_aggr z_pol =
     (let vehicle_id = next_vehicle_id self;
          s1 = self\<lparr>next_vehicle_id := next_vehicle_id self + 1\<rparr>
      in case find_route (network s1) orig dest of
           Inl e \<Rightarrow> Inl e
         | Inr rt \<Rightarrow>
             if rt = [] \<or> length rt < 2 then Inr s1
             else
               let vehicle =
                     (if vehicle_type = ''car'' then Car vehicle_id (now s1) orig dest rt z_aggr z_pol
                      else if vehicle_type = ''bus'' then Bus vehicle_id (now s1) orig dest rt z_aggr z_pol
                      else if vehicle_type = ''truck'' then Truck vehicle_id (now s1) orig dest rt z_aggr z_pol
                      else if vehicle_type = ''motorcycle''
                        then Motorcycle vehicle_id (now s1) orig dest rt z_aggr z_pol
                      else Car vehicle_id (now s1) orig dest rt z_aggr z_pol);
                   vehicle1 = (if length rt \<ge> 2
                               then vehicle\<lparr>current_edge := Some (rt ! 0, rt ! 1, 0)\<rparr>
                               else vehicle);
                   ev1 = (if length rt \<ge> 2
                          then ev_append (edge_vehicles s1) (rt ! 0, rt ! 1, 0) vehicle_id
                          else edge_vehicles s1)
               in Inr (s1\<lparr> store := (store s1)(vehicle_id := vehicle1),
                           vehicles := (if vehicle_id \<in> set (vehicles s1) then vehicles s1
                                        else vehicles s1 @ [vehicle_id]),
                           edge_vehicles := ev1,
                           stats_vehicles_spawned := stats_vehicles_spawned s1 + 1 \<rparr>))"

text \<open>
  The leader lookup of \<^verbatim>\<open>_update_vehicle_position\<close> (the block "Find leader vehicle on
  same edge"): the vehicle one place earlier in the edge's list, at the fixed distance
  50.0.
\<close>

definition find_leader ::
  "TrafficSimulation \<Rightarrow> nat list \<Rightarrow> nat \<Rightarrow> real option \<times> real option" where
  "find_leader self edge_vehicles_here i =
     (case py_index edge_vehicles_here i of
        None \<Rightarrow> (None, None)
      | Some vehicle_index \<Rightarrow>
          if vehicle_index > 0
          then (Some 50.0, Some (speed (store self (edge_vehicles_here ! (vehicle_index - 1)))))
          else (None, None))"

text \<open>
  The last block of \<^verbatim>\<open>_update_vehicle_position\<close> ("Check if reached next node"), on the
  vehicle object \<open>vehicle\<close> of id \<open>i\<close> as the earlier blocks left it, on the edge
  \<open>(u, v, key)\<close>. The test compares the distance moved in this tick with half the edge's
  length.
\<close>

definition advance_vehicle ::
  "TrafficSimulation \<Rightarrow> nat \<Rightarrow> Vehicle \<Rightarrow> edge \<Rightarrow> real \<Rightarrow> real \<Rightarrow> py_error + TrafficSimulation" where
  "advance_vehicle self i vehicle cur edge_len distance_traveled =
     (case cur of (u, v, key) \<Rightarrow>
      if distance_traveled \<ge> edge_len * 0.5 then
        (case (case py_index (route vehicle) v of
                 None \<Rightarrow> None
               | Some k \<Rightarrow> if k < length (route vehicle) - 1 then Some k else None) of
           Some current_route_index \<Rightarrow>
             (let next_node = route vehicle ! (current_route_index + 1);
                  ev1 = ev_remove (edge_vehicles self) cur i;
                  new_edge = (v, next_node, 0);
                  vehicle1 = vehicle\<lparr>current_edge := Some new_edge\<rparr>;
                  ev2 = ev_append ev1 new_edge i
              in case get_node_position (network self) v of
                   Inl e \<Rightarrow> Inl e
                 | Inr new_pos \<Rightarrow>
                     Inr (self\<lparr> store := (store self)
                                   (i := update_position vehicle1 new_pos (time_step self)),
                                 edge_vehicles := ev2 \<rparr>))
         | None \<Rightarrow>
             Inr (self\<lparr> store := (store self)(i := vehicle\<lparr>completed := True\<rparr>),
                         edge_vehicles := ev_remove (edge_vehicles self) cur i \<rparr>))
      else
        Inr (self\<lparr> store := (store self)
                      (i := vehicle\<lparr>stats := (stats vehicle)
                              \<lparr>total_time := total_time (stats vehicle) + time_step self\<rparr>\<rparr>) \<rparr>))"

text \<open>
  The signal check of \<^verbatim>\<open>_update_vehicle_position\<close> (the block "Check for traffic
  signal at next node") for the end node \<open>v\<close> of the current edge: without a signal at
  \<open>v\<close> the vehicle may proceed; with one, the signal decides for the approach
  \<^verbatim>\<open>'north'\<close> at half the edge's length.
\<close>

definition signal_permits :: "TrafficSimulation \<Rightarrow> node \<Rightarrow> real \<Rightarrow> real \<Rightarrow> py_error + bool" where
  "signal_permits self v edge_len vehicle_speed =
     (case signals self v of
        None \<Rightarrow> Inr True
      | Some signal \<Rightarrow> can_vehicle_proceed signal ''north'' (edge_len * 0.5) vehicle_speed)"

text \<open>
  The speed update \<^verbatim>\<open>max(0.0, vehicle.speed + acceleration * self.time_step)\<close>: the
  builtin \<^verbatim>\<open>max\<close> keeps \<^verbatim>\<open>0.0\<close> unless the sum is greater, so a NaN acceleration
  gives \<^verbatim>\<open>0.0\<close>.
\<close>

definition integrate_speed :: "real \<Rightarrow> clipped \<Rightarrow> real \<Rightarrow> real" where
  "integrate_speed v acc dt = (case acc of Num a \<Rightarrow> max 0 (v + a * dt) | NotANumber \<Rightarrow> 0)"

text \<open>\<^verbatim>\<open>_update_vehicle_position\<close> for the vehicle object of id \<open>i\<close>.\<close>

definition update_vehicle_position :: "TrafficSimulation \<Rightarrow> nat \<Rightarrow> py_error + TrafficSimulation" where
  "update_vehicle_position self i =
     (let vehicle = store self i in
      if route vehicle = [] \<or> length (route vehicle) < 2
      then Inr (self\<lparr>store := (store self)(i := vehicle\<lparr>completed := True\<rparr>)\<rparr>)
      else
        case current_edge vehicle of
          None \<Rightarrow> Inr (self\<lparr>store := (store self)(i := vehicle\<lparr>completed := True\<rparr>)\<rparr>)
        | Some (u, v, key) \<Rightarrow>
           (case get_edge_info (network self) u v key of
              Inl e \<Rightarrow> Inl e
            | Inr edge_info \<Rightarrow>
               (case signal_permits self v (edge_length edge_info) (speed vehicle) of
                  Inl e \<Rightarrow> Inl e
                | Inr can_proceed \<Rightarrow>
                   (let ev1 = ev_touch (edge_vehicles self) (u, v, key);
                        leader = find_leader self (ev_get ev1 (u, v, key)) i;
                        desired_speed = (if \<not> can_proceed then 0 else speed_limit edge_info);
                        vehicle1 = vehicle\<lparr>waiting_at_signal := \<not> can_proceed\<rparr>
                    in case calculate_acceleration vehicle1 (fst leader) (snd leader) desired_speed of
                         Inl e \<Rightarrow> Inl e
                       | Inr acc \<Rightarrow>
                          (let new_speed = integrate_speed (speed vehicle1) acc (time_step self);
                               vehicle2 = vehicle1\<lparr>speed := new_speed, acceleration := acc\<rparr>;
                               distance_traveled = speed vehicle2 * time_step self
                           in advance_vehicle (self\<lparr>edge_vehicles := ev1\<rparr>) i vehicle2
                                (u, v, key) (edge_length edge_info) distance_traveled)))))"

text \<open>
  One pass of \<^verbatim>\<open>_update_vehicles\<close> after its \<^verbatim>\<open>yield\<close>: the loop over a copy of the
  dictionary's items, which collects the ids of completed vehicles and updates the
  others, and then the loop that pops the collected ids.
\<close>

fun update_loop ::
  "TrafficSimulation \<Rightarrow> nat list \<Rightarrow> nat list \<Rightarrow> py_error + TrafficSimulation \<times> nat list" where
  "update_loop self [] vehicles_to_remove = Inr (self, vehicles_to_remove)"
| "update_loop self (i # rest) vehicles_to_remove =
     (if completed (store self i) then update_loop self rest (vehicles_to_remove @ [i])
      else case update_vehicle_position self i of
             Inl e \<Rightarrow> Inl e
           | Inr s' \<Rightarrow> update_loop s' rest vehicles_to_remove)"

fun remove_loop :: "TrafficSimulation \<Rightarrow> nat list \<Rightarrow> py_error + TrafficSimulation" where
  "remove_loop self [] = Inr self"
| "remove_loop self (i # rest) =
     (if i \<notin> set (vehicles self) then Inl KeyError
      else
        let vehicle = store self i
        in remove_loop
             (self\<lparr> vehicles := remove1 i (vehicles self),
                     completed_vehicles := completed_vehicles self @ [i],
                     stats_vehicles_completed := stats_vehicles_completed self + 1,
                     stats_total_travel_time :=
                       stats_total_travel_time self + total_time (stats vehicle),
                     stats_total_distance :=
                       stats_total_distance self + total_distance (stats vehicle),
                     stats_total_stops := stats_total_stops self + stops (stats vehicle) \<rparr>)
             rest)"

definition update_vehicles :: "TrafficSimulation \<Rightarrow> py_error + TrafficSimulation" where
  "update_vehicles self =
     (case update_loop self (vehicles self) [] of
        Inl e \<Rightarrow> Inl e
      | Inr (s, vehicles_to_remove) \<Rightarrow> remove_loop s vehicles_to_remove)"

text \<open>
  \<^verbatim>\<open>get_congestion_level\<close>. \<^verbatim>\<open>np.mean\<close> of the speeds on the edge is their sum divided
  by their number. The value returned is \<^verbatim>\<open>min(1.0, congestion)\<close>. (Reading the
  \<^verbatim>\<open>defaultdict\<close> stores an empty list under a missing key; that does not change the
  value computed.)
\<close>

definition get_congestion_level :: "TrafficSimulation \<Rightarrow> edge \<Rightarrow> py_error + real" where
  "get_congestion_level self e =
     (case e of (u, v, key) \<Rightarrow>
      (case get_edge_info (network self) u v key of
        Inl err \<Rightarrow> Inl err
      | Inr edge_info \<Rightarrow>
          let capacity = (edge_length edge_info / 7.0) * real_of_int (lanes edge_info);
              ev1 = ev_touch (edge_vehicles self) e;
              occupancy = length (ev_get ev1 e);
              density_ratio = (if capacity > 0 then real occupancy / capacity else 0);
              speed_ratio =
                (if map_of ev1 e \<noteq> None \<and> ev_get ev1 e \<noteq> []
                 then let avg_speed = sum_list (map (\<lambda>i. speed (store self i)) (ev_get ev1 e))
                                      / real (length (ev_get ev1 e))
                      in if speed_limit edge_info > 0
                         then 1.0 - (avg_speed / speed_limit edge_info)
                         else 0
                 else 0);
              congestion = 0.6 * density_ratio + 0.4 * speed_ratio
          in Inr (min 1.0 congestion)))"

subsection \<open>Notions used in the properties\<close>

text \<open>
  The vehicles of the table \<^verbatim>\<open>self.vehicles\<close> that are not flagged completed, in the
  table's order. (A vehicle flagged completed stays in the table until the next pass of
  \<^verbatim>\<open>_update_vehicles\<close> pops it.)
\<close>

definition active_ids :: "TrafficSimulation \<Rightarrow> nat list" where
  "active_ids s = filter (\<lambda>i. \<not> completed (store s i)) (vehicles s)"

text \<open>The sum of the per-edge occupancy counts \<^verbatim>\<open>len(self.edge_vehicles[e])\<close>.\<close>

definition occupancy_total :: "TrafficSimulation \<Rightarrow> nat" where
  "occupancy_total s = sum_list (map (\<lambda>(e, l). length l) (edge_vehicles s))"

text \<open>
  The occupancy invariant: the keys of both dictionaries are distinct, every id in the
  table is below the id counter, the occupancy lists together hold exactly the vehicles
  that are not flagged completed, each once, and each of these has a route of at least
  two nodes and is on the list of its current edge.
\<close>

definition occupancy_inv :: "TrafficSimulation \<Rightarrow> bool" where
  "occupancy_inv s =
     (distinct (vehicles s)
      \<and> distinct (map fst (edge_vehicles s))
      \<and> list_all (\<lambda>i. i < next_vehicle_id s) (vehicles s)
      \<and> mset (concat (map snd (edge_vehicles s))) = mset (active_ids s)
      \<and> list_all (\<lambda>i. 2 \<le> length (route (store s i))
                      \<and> (case current_edge (store s i) of
                            None \<Rightarrow> False
                          | Some e \<Rightarrow> i \<in> set (ev_get (edge_vehicles s) e)))
                 (active_ids s))"

text \<open>
  The node that follows the first occurrence of \<open>v\<close> on a route, if there is one: what
  \<^verbatim>\<open>route.index(v)\<close> and the bound \<^verbatim>\<open>< len(route) - 1\<close> select.
\<close>

definition route_successor :: "node list \<Rightarrow> node \<Rightarrow> node option" where
  "route_successor rt v =
     (case py_index rt v of
        None \<Rightarrow> None
      | Some k \<Rightarrow> if k + 1 < length rt then Some (rt ! (k + 1)) else None)"

subsection \<open>Concrete configurations\<close>

text \<open>The two phases \<^verbatim>\<open>create_standard_signal\<close> builds with its default timings.\<close>

definition standard_phases :: "SignalPhase list" where
  "standard_phases =
     [\<lparr> name = ''NS_Green'', duration = 60, green_approaches = [''north'', ''south''],
        yellow_duration = 3 \<rparr>,
      \<lparr> name = ''EW_Green'', duration = 30, green_approaches = [''east'', ''west''],
        yellow_duration = 3 \<rparr>]"

definition standard_signal :: TrafficSignal where
  "standard_signal =
     \<lparr> signal_id = 0, node_id = 0, signal_position = (0, 0), phases = standard_phases,
       coordinated = False, offset = 0,
       current_phase_index = 0, current_state = RED, time_in_phase = 0,
       cycle_length = 96, vehicles_served = 0, total_delay = 0 \<rparr>"

text \<open>
  A road graph of five nodes: a 300 m edge with a limit of 15 m/s (54 km/h) from node 1 to
  node 2, a 700 m edge with a limit of 10 m/s from node 2 to node 3, and two isolated
  nodes 8 and 9. The coordinate \<open>(0, 0)\<close> is nearest to node 1, \<open>(0, 3)\<close> to node 2,
  \<open>(4, 3)\<close> to node 3, \<open>(8, 8)\<close> to node 8 and every other one to node 9. The shortest
  path from a node to itself is that node alone; from node 1 it leads along the two
  edges; no other path exists.
\<close>

definition demo_network :: BellevueRoadNetwork where
  "demo_network =
     \<lparr> graph_loaded = True,
       graph_edges = [(1, 2, 0) \<mapsto> Some 300, (2, 3, 0) \<mapsto> Some 700],
       graph_nodes = [1 \<mapsto> (0, 0), 2 \<mapsto> (0, 3), 3 \<mapsto> (4, 3), 8 \<mapsto> (8, 8), 9 \<mapsto> (9, 9)],
       speed_limits = [(1, 2, 0) \<mapsto> 15, (2, 3, 0) \<mapsto> 10],
       lane_counts = [(1, 2, 0) \<mapsto> 2, (2, 3, 0) \<mapsto> 1],
       road_types = Map.empty,
       nearest_nodes = (\<lambda>c. if c = (0, 0) then 1 else if c = (0, 3) then 2
                             else if c = (4, 3) then 3 else if c = (8, 8) then 8 else 9),
       shortest_path = (\<lambda>a b. if a = b then Some [a]
                               else if a = 1 \<and> b = 3 then Some [1, 2, 3]
                               else if a = 1 \<and> b = 2 then Some [1, 2]
                               else if a = 2 \<and> b = 3 then Some [2, 3] else None) \<rparr>"

text \<open>A simulation on that graph, without signals, with time step \<open>dt\<close>.\<close>

definition demo_sim :: "real \<Rightarrow> TrafficSimulation" where
  "demo_sim dt = TrafficSimulation_init dt demo_network Map.empty"

text \<open>
  The state \<open>s\<close> with the standard signal, in its initial state RED, placed at node 2.
\<close>

definition with_red_signal :: "TrafficSimulation \<Rightarrow> TrafficSimulation" where
  "with_red_signal s = s\<lparr>signals := [2 \<mapsto> standard_signal\<lparr>node_id := 2\<rparr>]\<rparr>"


text \<open>
  The state after one car has been spawned for the trip from \<open>(0, 0)\<close> to \<open>dest\<close> (both
  normal draws are 0.5), and the state after one further pass of \<^verbatim>\<open>_update_vehicles\<close>,
  and after two. (Each falls back to the state before if the operation raised; the
  operations do not raise on these inputs.)
\<close>

definition demo_spawned :: "real \<Rightarrow> coord \<Rightarrow> TrafficSimulation" where
  "demo_spawned dt dest =
     (case spawn_vehicle (demo_sim dt) ''car'' (0, 0) dest 0.5 0.5 of
        Inr s \<Rightarrow> s | Inl e \<Rightarrow> demo_sim dt)"

definition demo_tick1 :: "real \<Rightarrow> coord \<Rightarrow> TrafficSimulation" where
  "demo_tick1 dt dest =
     (case update_vehicles (demo_spawned dt dest) of
        Inr s \<Rightarrow> s | Inl e \<Rightarrow> demo_spawned dt dest)"

definition demo_tick2 :: "real \<Rightarrow> coord \<Rightarrow> TrafficSimulation" where
  "demo_tick2 dt dest =
     (case update_vehicles (demo_tick1 dt dest) of
        Inr s \<Rightarrow> s | Inl e \<Rightarrow> demo_tick1 dt dest)"

text \<open>
  The car of the demonstration after one pass with a time step of 8 s, moving at 15 m/s on
  the edge from node 1 to node 2, with the red signal placed at node 2; and the state
  after one further pass of \<^verbatim>\<open>_update_vehicles\<close>.
\<close>

definition demo_red :: TrafficSimulation where
  "demo_red = with_red_signal (demo_tick1 8 (4, 3))"

definition demo_red_tick :: TrafficSimulation where
  "demo_red_tick =
     (case update_vehicles demo_red of Inr s \<Rightarrow> s | Inl e \<Rightarrow> demo_red)"

section \<open>Properties of the signal state machine\<close>

lemma update_step:
  assumes "current_phase_index s < length (phases s)"
  shows "\<exists>s'. update s dt = Inr s' \<and> spec_signal_step s dt s'
          \<and> current_phase_index s' < length (phases s')"
proof -
  from assms have "(current_phase_index s + 1) mod length (phases s) < length (phases s)"
    by (intro mod_less_divisor) auto
  with assms show ?thesis
    by (cases "current_state s")
       (auto simp: update_def get_current_phase_def spec_signal_step_def Let_def)
qed

lemma update_trace_run:
  "current_phase_index s < length (phases s) \<Longrightarrow>
   \<exists>tr. update_trace s dts = Inr tr \<and> spec_signal_run s dts tr"
proof (induction dts arbitrary: s)
  case Nil
  then show ?case by simp
next
  case (Cons dt dts)
  from update_step[OF Cons.prems, of dt] obtain s' where
    s': "update s dt = Inr s'" "spec_signal_step s dt s'"
        "current_phase_index s' < length (phases s')" by blast
  from Cons.IH[OF s'(3)] obtain tr where
    tr: "update_trace s' dts = Inr tr" "spec_signal_run s' dts tr" by blast
  show ?case using s' tr by simp
qed

lemma spec_step_state:
  "spec_signal_step s dt s' \<Longrightarrow>
     current_state s' = current_state s \<or> current_state s' = spec_next_state (current_state s)"
  by (auto simp: spec_signal_step_def Let_def split: if_splits)

lemma spec_run_length: "spec_signal_run s dts tr \<Longrightarrow> length tr = length dts"
  by (induction dts arbitrary: s tr) (auto split: list.splits)

lemma spec_run_states:
  "spec_signal_run s dts tr \<Longrightarrow> i < length tr \<Longrightarrow>
     current_state (tr ! i) = current_state ((s # tr) ! i)
   \<or> current_state (tr ! i) = spec_next_state (current_state ((s # tr) ! i))"
proof (induction dts arbitrary: s tr i)
  case Nil
  then show ?case by simp
next
  case (Cons dt dts)
  then obtain s' tr' where
    tr: "tr = s' # tr'" "spec_signal_step s dt s'" "spec_signal_run s' dts tr'"
    by (auto split: list.splits)
  show ?case
  proof (cases i)
    case 0
    then show ?thesis using tr spec_step_state by simp
  next
    case (Suc j)
    then show ?thesis using tr Cons.IH[OF tr(3), of j] Cons.prems by simp
  qed
qed

text \<open>
  Claim C6, as stated, fails: constructing a signal with zero phases does not fail. The
  constructor returns a signal in state RED with phase index 0 and cycle length 0.
\<close>

theorem zero_phase_signal_constructed:
  "TrafficSignal_init 0 0 (0, 0) [] False 0 =
     Inr \<lparr> signal_id = 0, node_id = 0, signal_position = (0, 0), phases = [],
           coordinated = False, offset = 0,
           current_phase_index = 0, current_state = RED, time_in_phase = 0,
           cycle_length = 0, vehicles_served = 0, total_delay = 0 \<rparr>"
  by (simp add: TrafficSignal_init_def)

text \<open>
  Claim C6, amended: constructing a traffic signal with zero phases succeeds, whatever
  the other arguments (the constructor makes no check); the failure is deferred to the
  first use: every call of \<^verbatim>\<open>update\<close> on that signal raises IndexError when it reads the
  current phase.
\<close>

theorem zero_phase_signal_deferred_failure:
  "\<exists>s. TrafficSignal_init sid nid pos [] coord off = Inr s \<and> phases s = []
       \<and> current_state s = RED \<and> cycle_length s = 0
       \<and> update s dt = Inl IndexError"
  by (simp add: TrafficSignal_init_def update_def get_current_phase_def)

text \<open>
  Claim C7: for every signal whose phase index is within its phase list (every signal with
  at least one phase, from construction on) and every sequence of \<^verbatim>\<open>update\<close> calls, no
  call raises, and the run is a run of the specified machine: from one call to the next
  the sub-state either stays or moves to its successor in the cycle
  GREEN, YELLOW, RED, GREEN; GREEN moves to YELLOW once the time in the sub-state reaches
  the phase's duration, YELLOW to RED once it reaches the phase's yellow duration, with
  the phase index advanced modulo the number of phases, RED to GREEN once it reaches
  1.0 s, and each move resets the timer.
\<close>

theorem update_follows_fixed_cycle:
  assumes "current_phase_index s < length (phases s)"
  shows "\<exists>tr. update_trace s dts = Inr tr \<and> spec_signal_run s dts tr \<and> length tr = length dts
           \<and> (\<forall>i < length tr.
                 current_state (tr ! i) = current_state ((s # tr) ! i)
               \<or> current_state (tr ! i) = spec_next_state (current_state ((s # tr) ! i)))"
  using update_trace_run[OF assms, of dts] spec_run_length spec_run_states by blast

theorem update_follows_fixed_cycle_witness:
  "current_phase_index standard_signal < length (phases standard_signal)
   \<and> (\<exists>tr. update_trace standard_signal [1, 30, 30, 3, 1] = Inr tr
        \<and> spec_signal_run standard_signal [1, 30, 30, 3, 1] tr \<and> length tr = 5
        \<and> map current_state tr = [GREEN, GREEN, YELLOW, RED, GREEN])"
proof -
  have h: "current_phase_index standard_signal < length (phases standard_signal)"
    by (simp add: standard_signal_def standard_phases_def)
  from update_follows_fixed_cycle[OF h, of "[1, 30, 30, 3, 1]"]
  obtain tr where tr: "update_trace standard_signal [1, 30, 30, 3, 1] = Inr tr"
     "spec_signal_run standard_signal [1, 30, 30, 3, 1] tr" "length tr = 5" by auto
  have "map current_state tr = [GREEN, GREEN, YELLOW, RED, GREEN]"
    using tr(1)
    by (auto simp add: update_def get_current_phase_def standard_signal_def
                       standard_phases_def Let_def)
  with h tr show ?thesis by (intro conjI exI[of _ tr]) simp_all
qed

text \<open>
  Claim C10: a call of \<^verbatim>\<open>update\<close> that returns either only advances the timer by the
  time step, or moves the sub-state to its successor and sets the timer to exactly 0; it
  never moves the sub-state two places. The time beyond the threshold is discarded,
  however large the time step is.
\<close>

theorem update_at_most_one_transition:
  assumes "update s dt = Inr s'"
  shows "(s' = s\<lparr>time_in_phase := time_in_phase s + dt\<rparr>
          \<or> (current_state s' = spec_next_state (current_state s) \<and> time_in_phase s' = 0))
         \<and> current_state s' \<noteq> spec_next_state (spec_next_state (current_state s))"
  using assms
  by (cases "current_state s")
     (auto simp: update_def get_current_phase_def Let_def split: if_splits)

theorem update_at_most_one_transition_witness:
  "update (standard_signal\<lparr>current_state := GREEN, time_in_phase := 50\<rparr>) 100
     = Inr (standard_signal\<lparr>current_state := YELLOW, time_in_phase := 0\<rparr>)
   \<and> current_state (standard_signal\<lparr>current_state := YELLOW, time_in_phase := 0\<rparr>)
       = spec_next_state GREEN
   \<and> time_in_phase (standard_signal\<lparr>current_state := YELLOW, time_in_phase := 0\<rparr>) = 0
   \<and> current_state (standard_signal\<lparr>current_state := YELLOW, time_in_phase := 0\<rparr>)
       \<noteq> spec_next_state (spec_next_state GREEN)"
proof -
  have h: "update (standard_signal\<lparr>current_state := GREEN, time_in_phase := 50\<rparr>) 100
             = Inr (standard_signal\<lparr>current_state := YELLOW, time_in_phase := 0\<rparr>)"
    by (simp add: update_def get_current_phase_def standard_signal_def standard_phases_def)
  from update_at_most_one_transition[OF h] h show ?thesis by simp
qed

section \<open>Properties of the car-following acceleration\<close>




section \<open>Lemmas on the occupancy lists\<close>

lemma ev_get_update: "ev_get (AList.update k v al) k' = (if k' = k then v else ev_get al k')"
  by (simp add: ev_get_def update_conv')

lemma ev_get_touch [simp]: "ev_get (ev_touch ev e) e' = ev_get ev e'"
  by (simp add: ev_touch_def ev_get_update)

lemma ev_get_append: "ev_get (ev_append ev e i) e' = (if e' = e then ev_get ev e @ [i] else ev_get ev e')"
  by (simp add: ev_append_def ev_get_update)

lemma ev_get_remove: "ev_get (ev_remove ev e i) e' = (if e' = e then remove1 i (ev_get ev e) else ev_get ev e')"
  by (simp add: ev_remove_def ev_get_update remove1_idem)

lemma mset_concat_update:
  "mset (concat (map snd (AList.update k v al))) + mset (ev_get al k)
     = mset (concat (map snd al)) + mset v"
  by (induction al) (auto simp: ev_get_def)

lemma mset_concat_touch [simp]:
  "mset (concat (map snd (ev_touch ev e))) = mset (concat (map snd ev))"
  using mset_concat_update[of e "ev_get ev e" ev] by (simp add: ev_touch_def)

lemma mset_concat_append:
  "mset (concat (map snd (ev_append ev e i))) = mset (concat (map snd ev)) + {#i#}"
  using mset_concat_update[of e "ev_get ev e @ [i]" ev] by (simp add: ev_append_def)

lemma mset_concat_remove:
  assumes "i \<in> set (ev_get ev e)"
  shows "mset (concat (map snd (ev_remove ev e i))) + {#i#} = mset (concat (map snd ev))"
proof -
  let ?M = "mset (ev_get ev e)"
  from assms have M: "?M = (?M - {#i#}) + {#i#}" by simp
  from mset_concat_update[of e "remove1 i (ev_get ev e)" ev] assms
  have "mset (concat (map snd (ev_remove ev e i))) + ?M
        = mset (concat (map snd ev)) + (?M - {#i#})"
    by (simp add: ev_remove_def)
  then have "mset (concat (map snd (ev_remove ev e i))) + ((?M - {#i#}) + {#i#})
        = mset (concat (map snd ev)) + (?M - {#i#})"
    using M by simp
  then show ?thesis by (simp add: ac_simps)
qed

lemma distinct_keys_touch [simp]:
  "distinct (map fst (ev_touch ev e)) = distinct (map fst ev)"
  by (simp add: ev_touch_def update_keys)

lemma distinct_keys_append [simp]:
  "distinct (map fst (ev_append ev e i)) = distinct (map fst ev)"
  by (simp add: ev_append_def update_keys)

lemma distinct_keys_remove [simp]:
  "distinct (map fst (ev_remove ev e i)) = distinct (map fst ev)"
  by (simp add: ev_remove_def ev_touch_def update_keys)

lemma occupancy_total_length:
  "occupancy_total s = length (concat (map snd (edge_vehicles s)))"
  by (simp add: occupancy_total_def length_concat comp_def case_prod_unfold)

lemma ev_get_Nil: "ev_get [] e = []"
  by (simp add: ev_get_def)

lemma ev_get_Cons: "ev_get ((k, l) # al) e = (if e = k then l else ev_get al e)"
  by (simp add: ev_get_def)

lemma ev_get_subset_concat: "set (ev_get al k) \<subseteq> set (concat (map snd al))"
  by (induction al) (auto simp: ev_get_Nil ev_get_Cons split: if_splits)

lemma distinct_concat_disjoint:
  "distinct (concat (map snd al)) \<Longrightarrow> e \<noteq> e' \<Longrightarrow>
     set (ev_get al e) \<inter> set (ev_get al e') = {}"
proof (induction al)
  case Nil
  then show ?case by (simp add: ev_get_Nil)
next
  case (Cons p al)
  obtain k l where p: "p = (k, l)" by (cases p)
  from Cons.prems have d: "set l \<inter> set (concat (map snd al)) = {}"
    and d': "distinct (concat (map snd al))" by (auto simp: p)
  show ?case
    using Cons.IH[OF d' Cons.prems(2)] d Cons.prems(2)
          ev_get_subset_concat[of al e] ev_get_subset_concat[of al e']
    by (auto simp: p ev_get_Cons)
qed

lemma distinct_concat_each:
  "distinct (concat (map snd al)) \<Longrightarrow> distinct (ev_get al e)"
  by (induction al) (auto simp: ev_get_Nil ev_get_Cons)

lemma mset_filter_drop:
  assumes "distinct xs" "i \<in> set xs" "P i"
  shows "mset (filter (\<lambda>j. j \<noteq> i \<and> P j) xs) + {#i#} = mset (filter P xs)"
  using assms
proof (induction xs)
  case Nil
  then show ?case by simp
next
  case (Cons x xs)
  show ?case
  proof (cases "x = i")
    case True
    with Cons.prems have "i \<notin> set xs" by simp
    then have "filter (\<lambda>j. j \<noteq> i \<and> P j) xs = filter P xs"
      by (intro filter_cong) auto
    with True Cons.prems show ?thesis by simp
  next
    case False
    with Cons show ?thesis by simp
  qed
qed

lemma inv_frame:
  assumes inv: "occupancy_inv s"
    and v: "vehicles s' = vehicles s" and n: "next_vehicle_id s' = next_vehicle_id s"
    and ev: "\<And>e. ev_get (edge_vehicles s') e = ev_get (edge_vehicles s) e"
    and ms: "mset (concat (map snd (edge_vehicles s'))) = mset (concat (map snd (edge_vehicles s)))"
    and dk: "distinct (map fst (edge_vehicles s')) = distinct (map fst (edge_vehicles s))"
    and st: "\<And>j. j \<in> set (vehicles s) \<Longrightarrow> completed (store s' j) = completed (store s j)
                  \<and> route (store s' j) = route (store s j)
                  \<and> current_edge (store s' j) = current_edge (store s j)"
  shows "occupancy_inv s'"
proof -
  have a: "active_ids s' = active_ids s"
    unfolding active_ids_def v by (intro filter_cong) (auto simp: st)
  have sub: "set (active_ids s) \<subseteq> set (vehicles s)" by (auto simp: active_ids_def)
  show ?thesis
    using inv sub unfolding occupancy_inv_def a v n ms dk list_all_iff
    by (auto simp: ev st split: option.splits)
qed

lemma inv_complete:
  assumes inv: "occupancy_inv s"
    and i: "i \<in> set (active_ids s)" and ce: "current_edge (store s i) = Some cur"
    and v: "vehicles s' = vehicles s" and n: "next_vehicle_id s' = next_vehicle_id s"
    and ev: "edge_vehicles s' = ev_remove (edge_vehicles s) cur i"
    and st: "\<And>j. j \<noteq> i \<Longrightarrow> store s' j = store s j"
    and c: "completed (store s' i)"
  shows "occupancy_inv s'"
proof -
  from i have iv: "i \<in> set (vehicles s)" and nc: "\<not> completed (store s i)"
    by (auto simp: active_ids_def)
  from inv have dv: "distinct (vehicles s)" by (simp add: occupancy_inv_def)
  have a: "active_ids s' = filter (\<lambda>j. j \<noteq> i \<and> \<not> completed (store s j)) (vehicles s)"
    unfolding active_ids_def v
  proof (intro filter_cong refl)
    fix j show "(\<not> completed (store s' j)) = (j \<noteq> i \<and> \<not> completed (store s j))"
      using st[of j] c by (cases "j = i") auto
  qed
  have am: "mset (active_ids s') + {#i#} = mset (active_ids s)"
    using mset_filter_drop[OF dv iv, of "\<lambda>j. \<not> completed (store s j)"] nc
    by (simp only: a) (simp add: active_ids_def)
  from inv i ce have il: "i \<in> set (ev_get (edge_vehicles s) cur)"
    by (auto simp: occupancy_inv_def list_all_iff)
  have "mset (concat (map snd (edge_vehicles s'))) + {#i#} = mset (active_ids s') + {#i#}"
    unfolding ev mset_concat_remove[OF il] am using inv by (simp add: occupancy_inv_def)
  then have m: "mset (concat (map snd (edge_vehicles s'))) = mset (active_ids s')" by simp
  have sa: "set (active_ids s') \<subseteq> set (active_ids s) - {i}"
    unfolding a by (auto simp: active_ids_def)
  have l: "list_all (\<lambda>j. 2 \<le> length (route (store s' j))
                      \<and> (case current_edge (store s' j) of
                            None \<Rightarrow> False
                          | Some e \<Rightarrow> j \<in> set (ev_get (edge_vehicles s') e)))
                 (active_ids s')"
    unfolding list_all_iff
  proof
    fix j assume "j \<in> set (active_ids s')"
    with sa have j: "j \<in> set (active_ids s)" "j \<noteq> i" by auto
    with inv show "2 \<le> length (route (store s' j))
                      \<and> (case current_edge (store s' j) of
                            None \<Rightarrow> False
                          | Some e \<Rightarrow> j \<in> set (ev_get (edge_vehicles s') e))"
      by (auto simp: occupancy_inv_def list_all_iff st ev ev_get_remove split: option.splits)
  qed
  show ?thesis
    using inv m l unfolding occupancy_inv_def v n by (simp add: ev)
qed

lemma inv_transition:
  assumes inv: "occupancy_inv s"
    and i: "i \<in> set (active_ids s)" and ce: "current_edge (store s i) = Some cur"
    and v: "vehicles s' = vehicles s" and n: "next_vehicle_id s' = next_vehicle_id s"
    and ev: "edge_vehicles s' = ev_append (ev_remove (edge_vehicles s) cur i) new i"
    and st: "\<And>j. j \<noteq> i \<Longrightarrow> store s' j = store s j"
    and c: "\<not> completed (store s' i)" and r: "2 \<le> length (route (store s' i))"
    and ne: "current_edge (store s' i) = Some new"
  shows "occupancy_inv s'"
proof -
  from i have iv: "i \<in> set (vehicles s)" and nc: "\<not> completed (store s i)"
    by (auto simp: active_ids_def)
  have a: "active_ids s' = active_ids s"
    unfolding active_ids_def v
  proof (intro filter_cong refl)
    fix j show "(\<not> completed (store s' j)) = (\<not> completed (store s j))"
      using st[of j] c nc by (cases "j = i") auto
  qed
  from inv i ce have il: "i \<in> set (ev_get (edge_vehicles s) cur)"
    by (auto simp: occupancy_inv_def list_all_iff)
  have m: "mset (concat (map snd (edge_vehicles s'))) = mset (active_ids s')"
    unfolding ev mset_concat_append mset_concat_remove[OF il] a
    using inv by (simp add: occupancy_inv_def)
  have l: "list_all (\<lambda>j. 2 \<le> length (route (store s' j))
                      \<and> (case current_edge (store s' j) of
                            None \<Rightarrow> False
                          | Some e \<Rightarrow> j \<in> set (ev_get (edge_vehicles s') e)))
                 (active_ids s')"
    unfolding list_all_iff a
  proof
    fix j assume j: "j \<in> set (active_ids s)"
    show "2 \<le> length (route (store s' j))
                      \<and> (case current_edge (store s' j) of
                            None \<Rightarrow> False
                          | Some e \<Rightarrow> j \<in> set (ev_get (edge_vehicles s') e))"
    proof (cases "j = i")
      case True
      then show ?thesis using r ne by (simp add: ev ev_get_append)
    next
      case False
      with inv j show ?thesis
        by (auto simp: occupancy_inv_def list_all_iff st ev ev_get_remove ev_get_append
                 split: option.splits)
    qed
  qed
  show ?thesis
    using inv m l unfolding occupancy_inv_def v n by (simp add: ev)
qed

lemma advance_vehicle_cases:
  assumes "advance_vehicle s i veh (u, v, key) L d = Inr s'"
  shows "vehicles s' = vehicles s \<and> next_vehicle_id s' = next_vehicle_id s
       \<and> (\<forall>j. j \<noteq> i \<longrightarrow> store s' j = store s j)
       \<and> ((edge_vehicles s' = edge_vehicles s \<and> completed (store s' i) = completed veh
            \<and> route (store s' i) = route veh \<and> current_edge (store s' i) = current_edge veh)
          \<or> (\<exists>n. edge_vehicles s' = ev_append (ev_remove (edge_vehicles s) (u, v, key) i) (v, n, 0) i
                \<and> completed (store s' i) = completed veh \<and> route (store s' i) = route veh
                \<and> current_edge (store s' i) = Some (v, n, 0))
          \<or> (edge_vehicles s' = ev_remove (edge_vehicles s) (u, v, key) i
              \<and> completed (store s' i)))"
  using assms
  by (auto simp: advance_vehicle_def update_position_def Let_def
           split: if_splits option.splits sum.splits)

lemma update_vehicle_position_unfold:
  assumes "update_vehicle_position s i = Inr s'"
    and "2 \<le> length (route (store s i))" and "current_edge (store s i) = Some (u, v, key)"
  shows "\<exists>info can_proceed acc.
           get_edge_info (network s) u v key = Inr info
         \<and> signal_permits s v (edge_length info) (speed (store s i)) = Inr can_proceed
         \<and> calculate_acceleration ((store s i)\<lparr>waiting_at_signal := \<not> can_proceed\<rparr>)
               (fst (find_leader s (ev_get (edge_vehicles s) (u, v, key)) i))
               (snd (find_leader s (ev_get (edge_vehicles s) (u, v, key)) i))
               (if \<not> can_proceed then 0 else speed_limit info) = Inr acc
         \<and> advance_vehicle (s\<lparr>edge_vehicles := ev_touch (edge_vehicles s) (u, v, key)\<rparr>) i
             ((store s i)\<lparr>waiting_at_signal := \<not> can_proceed,
                           speed := integrate_speed (speed (store s i)) acc (time_step s),
                           acceleration := acc\<rparr>)
             (u, v, key) (edge_length info)
             (integrate_speed (speed (store s i)) acc (time_step s) * time_step s) = Inr s'"
proof -
  from assms obtain info where gi: "get_edge_info (network s) u v key = Inr info"
    by (auto simp: update_vehicle_position_def Let_def split: sum.splits if_splits)
  from assms gi obtain cp where
    cp: "signal_permits s v (edge_length info) (speed (store s i)) = Inr cp"
    by (auto simp: update_vehicle_position_def Let_def split: sum.splits if_splits)
  from assms gi cp obtain acc where
    acc: "calculate_acceleration ((store s i)\<lparr>waiting_at_signal := \<not> cp\<rparr>)
               (fst (find_leader s (ev_get (edge_vehicles s) (u, v, key)) i))
               (snd (find_leader s (ev_get (edge_vehicles s) (u, v, key)) i))
               (if \<not> cp then 0 else speed_limit info) = Inr acc"
    by (auto simp: update_vehicle_position_def Let_def split: sum.splits if_splits)
  from assms gi cp acc have
    "advance_vehicle (s\<lparr>edge_vehicles := ev_touch (edge_vehicles s) (u, v, key)\<rparr>) i
             ((store s i)\<lparr>waiting_at_signal := \<not> cp,
                           speed := integrate_speed (speed (store s i)) acc (time_step s),
                           acceleration := acc\<rparr>)
             (u, v, key) (edge_length info)
             (integrate_speed (speed (store s i)) acc (time_step s) * time_step s) = Inr s'"
    by (auto simp: update_vehicle_position_def Let_def split: sum.splits if_splits)
  with gi cp acc show ?thesis by blast
qed

lemma update_vehicle_position_mid:
  assumes "update_vehicle_position s i = Inr s'"
    and "2 \<le> length (route (store s i))" and "current_edge (store s i) = Some (u, v, key)"
  shows "\<exists>veh L d. advance_vehicle (s\<lparr>edge_vehicles := ev_touch (edge_vehicles s) (u, v, key)\<rparr>)
                     i veh (u, v, key) L d = Inr s'
               \<and> completed veh = completed (store s i) \<and> route veh = route (store s i)
               \<and> current_edge veh = current_edge (store s i)"
  using update_vehicle_position_unfold[OF assms]
  by (elim exE conjE) (intro exI conjI, assumption, simp_all add: assms)

lemma update_vehicle_position_frame:
  assumes "update_vehicle_position s i = Inr s'"
  shows "vehicles s' = vehicles s \<and> next_vehicle_id s' = next_vehicle_id s
       \<and> (\<forall>j. j \<noteq> i \<longrightarrow> store s' j = store s j)"
proof (cases "2 \<le> length (route (store s i)) \<and> current_edge (store s i) \<noteq> None")
  case True
  then obtain u v key where ce: "current_edge (store s i) = Some (u, v, key)" by auto
  from update_vehicle_position_mid[OF assms _ ce] True
  obtain veh L d where "advance_vehicle (s\<lparr>edge_vehicles := ev_touch (edge_vehicles s) (u, v, key)\<rparr>)
                     i veh (u, v, key) L d = Inr s'" by auto
  from advance_vehicle_cases[OF this] show ?thesis by simp
next
  case False
  with assms show ?thesis
    by (auto simp: update_vehicle_position_def Let_def split: option.splits if_splits)
qed

lemma update_vehicle_position_inv:
  assumes inv: "occupancy_inv s" and i: "i \<in> set (active_ids s)"
    and upd: "update_vehicle_position s i = Inr s'"
  shows "occupancy_inv s'"
proof -
  from inv i have r: "2 \<le> length (route (store s i))"
    and "current_edge (store s i) \<noteq> None"
    by (auto simp: occupancy_inv_def list_all_iff split: option.splits)
  then obtain u v key where ce: "current_edge (store s i) = Some (u, v, key)" by auto
  let ?m = "s\<lparr>edge_vehicles := ev_touch (edge_vehicles s) (u, v, key)\<rparr>"
  from update_vehicle_position_mid[OF upd r ce]
  obtain veh L d where adv: "advance_vehicle ?m i veh (u, v, key) L d = Inr s'"
    and veh: "completed veh = completed (store s i)" "route veh = route (store s i)"
             "current_edge veh = current_edge (store s i)" by auto
  have minv: "occupancy_inv ?m"
    by (rule inv_frame[OF inv]) simp_all
  have mi: "i \<in> set (active_ids ?m)" using i by (simp add: active_ids_def)
  have mce: "current_edge (store ?m i) = Some (u, v, key)" using ce by simp
  from i have nc: "\<not> completed (store s i)" by (simp add: active_ids_def)
  from advance_vehicle_cases[OF adv]
  have fr: "vehicles s' = vehicles ?m" "next_vehicle_id s' = next_vehicle_id ?m"
    "\<And>j. j \<noteq> i \<Longrightarrow> store s' j = store ?m j"
    and cases: "(edge_vehicles s' = edge_vehicles ?m \<and> completed (store s' i) = completed veh
            \<and> route (store s' i) = route veh \<and> current_edge (store s' i) = current_edge veh)
          \<or> (\<exists>n. edge_vehicles s' = ev_append (ev_remove (edge_vehicles ?m) (u, v, key) i) (v, n, 0) i
                \<and> completed (store s' i) = completed veh \<and> route (store s' i) = route veh
                \<and> current_edge (store s' i) = Some (v, n, 0))
          \<or> (edge_vehicles s' = ev_remove (edge_vehicles ?m) (u, v, key) i
              \<and> completed (store s' i))"
    by blast+
  from cases show ?thesis
  proof (elim disjE exE conjE)
    assume e: "edge_vehicles s' = edge_vehicles ?m"
      and c: "completed (store s' i) = completed veh" "route (store s' i) = route veh"
             "current_edge (store s' i) = current_edge veh"
    show ?thesis
    proof (rule inv_frame[OF minv fr(1) fr(2)])
      fix j show "completed (store s' j) = completed (store ?m j)
                  \<and> route (store s' j) = route (store ?m j)
                  \<and> current_edge (store s' j) = current_edge (store ?m j)"
        using fr(3)[of j] c veh by (cases "j = i") auto
    qed (simp_all add: e)
  next
    fix n
    assume e: "edge_vehicles s' = ev_append (ev_remove (edge_vehicles ?m) (u, v, key) i) (v, n, 0) i"
      and c: "completed (store s' i) = completed veh" "route (store s' i) = route veh"
             "current_edge (store s' i) = Some (v, n, 0)"
    show ?thesis
      by (rule inv_transition[OF minv mi mce fr(1) fr(2) e fr(3)])
         (use c veh nc r in auto)
  next
    assume e: "edge_vehicles s' = ev_remove (edge_vehicles ?m) (u, v, key) i"
      and c: "completed (store s' i)"
    show ?thesis
      by (rule inv_complete[OF minv mi mce fr(1) fr(2) e fr(3) c])
  qed
qed

lemma inv_spawn:
  assumes inv: "occupancy_inv s"
    and v: "vehicles s' = vehicles s @ [next_vehicle_id s]"
    and n: "next_vehicle_id s' = next_vehicle_id s + 1"
    and st: "store s' = (store s)(next_vehicle_id s := veh)"
    and veh: "\<not> completed veh" "2 \<le> length (route veh)" "current_edge veh = Some e"
    and ev: "edge_vehicles s' = ev_append (edge_vehicles s) e (next_vehicle_id s)"
  shows "occupancy_inv s'"
proof -
  let ?n = "next_vehicle_id s"
  from inv have fresh: "?n \<notin> set (vehicles s)"
    by (auto simp: occupancy_inv_def list_all_iff)
  have "filter (\<lambda>i. \<not> completed (store s' i)) (vehicles s)
        = filter (\<lambda>i. \<not> completed (store s i)) (vehicles s)"
    by (intro filter_cong refl) (use fresh st in auto)
  then have a: "active_ids s' = active_ids s @ [?n]"
    using veh(1) by (simp add: active_ids_def v st)
  have m: "mset (concat (map snd (edge_vehicles s'))) = mset (active_ids s')"
    unfolding ev mset_concat_append a using inv by (simp add: occupancy_inv_def)
  have sub: "set (active_ids s) \<subseteq> set (vehicles s)" by (auto simp: active_ids_def)
  have l: "list_all (\<lambda>j. 2 \<le> length (route (store s' j))
                      \<and> (case current_edge (store s' j) of
                            None \<Rightarrow> False
                          | Some e \<Rightarrow> j \<in> set (ev_get (edge_vehicles s') e)))
                 (active_ids s')"
    unfolding list_all_iff a
  proof
    fix j assume j: "j \<in> set (active_ids s @ [?n])"
    show "2 \<le> length (route (store s' j))
                      \<and> (case current_edge (store s' j) of
                            None \<Rightarrow> False
                          | Some e \<Rightarrow> j \<in> set (ev_get (edge_vehicles s') e))"
    proof (cases "j = ?n")
      case True
      then show ?thesis using veh by (simp add: st ev ev_get_append)
    next
      case False
      with j have "j \<in> set (active_ids s)" by simp
      with inv False show ?thesis
        by (auto simp: occupancy_inv_def list_all_iff st ev ev_get_append split: option.splits)
    qed
  qed
  from inv fresh have "distinct (vehicles s')" "list_all (\<lambda>i. i < next_vehicle_id s') (vehicles s')"
    by (auto simp: occupancy_inv_def v n list_all_iff)
  with inv m l show ?thesis
    unfolding occupancy_inv_def by (simp add: ev)
qed

lemma spawn_vehicle_inv:
  assumes inv: "occupancy_inv s"
    and sp: "spawn_vehicle s vehicle_type orig dest z_aggr z_pol = Inr s'"
  shows "occupancy_inv s'"
proof -
  from sp obtain rt where rt: "find_route (network s) orig dest = Inr rt"
    by (auto simp: spawn_vehicle_def Let_def split: sum.splits)
  show ?thesis
  proof (cases "rt = [] \<or> length rt < 2")
    case True
    with sp rt have "s' = s\<lparr>next_vehicle_id := next_vehicle_id s + 1\<rparr>"
      by (auto simp: spawn_vehicle_def Let_def)
    with inv show ?thesis
      by (auto simp: occupancy_inv_def active_ids_def list_all_iff split: option.splits)
  next
    case False
    then have len: "2 \<le> length rt" by simp
    from inv have fresh: "next_vehicle_id s \<notin> set (vehicles s)"
      by (auto simp: occupancy_inv_def list_all_iff)
    from sp rt False fresh obtain veh where
      s': "vehicles s' = vehicles s @ [next_vehicle_id s]"
          "next_vehicle_id s' = next_vehicle_id s + 1"
          "store s' = (store s)(next_vehicle_id s := veh)"
          "edge_vehicles s' = ev_append (edge_vehicles s) (rt ! 0, rt ! 1, 0) (next_vehicle_id s)"
      and veh: "\<not> completed veh" "route veh = rt" "current_edge veh = Some (rt ! 0, rt ! 1, 0)"
      by (auto simp: spawn_vehicle_def Let_def Car_def Bus_def Truck_def Motorcycle_def
                     Vehicle_init_def split: if_splits)
    show ?thesis
      by (rule inv_spawn[OF inv s'(1,2,3) veh(1) _ veh(3) s'(4)]) (simp add: veh len)
  qed
qed

lemma update_loop_inv:
  assumes "occupancy_inv s" and "set ids \<subseteq> set (vehicles s)"
    and "\<forall>j \<in> set rm. completed (store s j)"
    and "update_loop s ids rm = Inr (s', rm')"
  shows "occupancy_inv s' \<and> vehicles s' = vehicles s \<and> (\<forall>j \<in> set rm'. completed (store s' j))"
  using assms
proof (induction ids arbitrary: s rm)
  case Nil
  then show ?case by simp
next
  case (Cons i ids)
  show ?case
  proof (cases "completed (store s i)")
    case True
    with Cons.prems have "update_loop s ids (rm @ [i]) = Inr (s', rm')" by simp
    from Cons.IH[OF Cons.prems(1) _ _ this] Cons.prems True show ?thesis by auto
  next
    case False
    with Cons.prems obtain s1 where
      u: "update_vehicle_position s i = Inr s1" and l: "update_loop s1 ids rm = Inr (s', rm')"
      by (auto split: sum.splits)
    from Cons.prems False have ia: "i \<in> set (active_ids s)" by (simp add: active_ids_def)
    from update_vehicle_position_inv[OF Cons.prems(1) ia u] have inv1: "occupancy_inv s1" .
    from update_vehicle_position_frame[OF u]
    have fr: "vehicles s1 = vehicles s" "\<And>j. j \<noteq> i \<Longrightarrow> store s1 j = store s j" by auto
    have rm1: "\<forall>j \<in> set rm. completed (store s1 j)"
      using Cons.prems(3) False fr(2) by metis
    from Cons.IH[OF inv1 _ rm1 l] Cons.prems(2) fr(1) show ?thesis by auto
  qed
qed

lemma remove_loop_inv:
  assumes "occupancy_inv s" and "\<forall>j \<in> set rm. completed (store s j)"
    and "remove_loop s rm = Inr s'"
  shows "occupancy_inv s'"
  using assms
proof (induction rm arbitrary: s)
  case Nil
  then show ?case by simp
next
  case (Cons i rm)
  let ?s1 = "s\<lparr> vehicles := remove1 i (vehicles s),
                 completed_vehicles := completed_vehicles s @ [i],
                 stats_vehicles_completed := stats_vehicles_completed s + 1,
                 stats_total_travel_time :=
                   stats_total_travel_time s + total_time (stats (store s i)),
                 stats_total_distance :=
                   stats_total_distance s + total_distance (stats (store s i)),
                 stats_total_stops := stats_total_stops s + stops (stats (store s i)) \<rparr>"
  from Cons.prems have r: "remove_loop ?s1 rm = Inr s'"
    by (auto simp: Let_def split: if_splits)
  from Cons.prems have c: "completed (store s i)" by simp
  have "filter (\<lambda>j. \<not> completed (store s j)) (remove1 i (vehicles s))
        = remove1 i (filter (\<lambda>j. \<not> completed (store s j)) (vehicles s))"
    by (simp add: filter_remove1)
  also have "\<dots> = filter (\<lambda>j. \<not> completed (store s j)) (vehicles s)"
    using c by (simp add: remove1_idem)
  finally have a: "active_ids ?s1 = active_ids s" by (simp add: active_ids_def)
  have inv1: "occupancy_inv ?s1"
    using Cons.prems(1) unfolding occupancy_inv_def a
    by (auto simp: list_all_iff dest: notin_set_remove1 split: option.splits)
  show ?case
    by (rule Cons.IH[OF inv1 _ r]) (use Cons.prems(2) in simp)
qed

lemma update_vehicles_inv:
  assumes "occupancy_inv s" and "update_vehicles s = Inr s'"
  shows "occupancy_inv s'"
proof -
  from assms(2) obtain s1 rm where l: "update_loop s (vehicles s) [] = Inr (s1, rm)"
    and r: "remove_loop s1 rm = Inr s'"
    by (auto simp: update_vehicles_def split: sum.splits)
  from update_loop_inv[OF assms(1) _ _ l]
  have "occupancy_inv s1" "\<forall>j \<in> set rm. completed (store s1 j)" by auto
  from remove_loop_inv[OF this r] show ?thesis .
qed

lemma init_inv: "occupancy_inv (TrafficSimulation_init dt net sigs)"
  by (simp add: occupancy_inv_def TrafficSimulation_init_def active_ids_def)

lemma inv_consequences:
  assumes inv: "occupancy_inv s"
  shows "distinct (concat (map snd (edge_vehicles s)))"
    and "occupancy_total s = length (active_ids s)"
    and "\<And>e. distinct (ev_get (edge_vehicles s) e)"
    and "\<And>e e'. e \<noteq> e' \<Longrightarrow> set (ev_get (edge_vehicles s) e) \<inter> set (ev_get (edge_vehicles s) e') = {}"
    and "\<And>i. i \<in> set (active_ids s) \<Longrightarrow>
           \<exists>e. current_edge (store s i) = Some e \<and> i \<in> set (ev_get (edge_vehicles s) e)"
    and "\<And>e. set (ev_get (edge_vehicles s) e) \<subseteq> set (active_ids s)"
proof -
  from inv have m: "mset (concat (map snd (edge_vehicles s))) = mset (active_ids s)"
    and dv: "distinct (vehicles s)" by (auto simp: occupancy_inv_def)
  have da: "distinct (active_ids s)" using dv by (simp add: active_ids_def)
  show d: "distinct (concat (map snd (edge_vehicles s)))"
    using m da by (metis distinct_count_atmost_1 mset_eq_setD count_mset set_mset_mset)
  show "occupancy_total s = length (active_ids s)"
    using m by (metis occupancy_total_length size_mset)
  show "\<And>e. distinct (ev_get (edge_vehicles s) e)" by (rule distinct_concat_each[OF d])
  show "\<And>e e'. e \<noteq> e' \<Longrightarrow> set (ev_get (edge_vehicles s) e) \<inter> set (ev_get (edge_vehicles s) e') = {}"
    by (rule distinct_concat_disjoint[OF d])
  show "\<And>i. i \<in> set (active_ids s) \<Longrightarrow>
           \<exists>e. current_edge (store s i) = Some e \<and> i \<in> set (ev_get (edge_vehicles s) e)"
    using inv by (auto simp: occupancy_inv_def list_all_iff split: option.splits)
  show "\<And>e. set (ev_get (edge_vehicles s) e) \<subseteq> set (active_ids s)"
    using ev_get_subset_concat[of "edge_vehicles s"] mset_eq_setD[OF m] by auto
qed

section \<open>Lemmas on the vehicle update\<close>

lemma advance_vehicle_speed:
  assumes "advance_vehicle s i veh cur L d = Inr s'"
  shows "speed (store s' i) = speed veh \<and> acceleration (store s' i) = acceleration veh"
  using assms
  by (cases cur)
     (auto simp: advance_vehicle_def update_position_def Let_def
           split: if_splits option.splits sum.splits)

lemma integrate_speed_nonneg: "0 \<le> integrate_speed v acc dt"
  by (simp add: integrate_speed_def split: clipped.splits)

lemma update_vehicle_position_speed:
  assumes "update_vehicle_position s i = Inr s'"
    and "2 \<le> length (route (store s i))" and "current_edge (store s i) = Some (u, v, key)"
  shows "speed (store s' i)
           = integrate_speed (speed (store s i)) (acceleration (store s' i)) (time_step s)"
  using update_vehicle_position_unfold[OF assms]
  by (elim exE conjE) (drule advance_vehicle_speed, simp)

lemma update_vehicle_position_acceleration:
  assumes "update_vehicle_position s i = Inr s'"
    and "2 \<le> length (route (store s i))" and "current_edge (store s i) = Some (u, v, key)"
  shows "\<exists>info can_proceed acc.
           get_edge_info (network s) u v key = Inr info
         \<and> signal_permits s v (edge_length info) (speed (store s i)) = Inr can_proceed
         \<and> calculate_acceleration ((store s i)\<lparr>waiting_at_signal := \<not> can_proceed\<rparr>)
               (fst (find_leader s (ev_get (edge_vehicles s) (u, v, key)) i))
               (snd (find_leader s (ev_get (edge_vehicles s) (u, v, key)) i))
               (if \<not> can_proceed then 0 else speed_limit info) = Inr acc
         \<and> acceleration (store s' i) = acc
         \<and> speed (store s' i) = integrate_speed (speed (store s i)) acc (time_step s)"
proof -
  from update_vehicle_position_unfold[OF assms] obtain info can_proceed acc where
    gi: "get_edge_info (network s) u v key = Inr info"
    and cp: "signal_permits s v (edge_length info) (speed (store s i)) = Inr can_proceed"
    and acc: "calculate_acceleration ((store s i)\<lparr>waiting_at_signal := \<not> can_proceed\<rparr>)
               (fst (find_leader s (ev_get (edge_vehicles s) (u, v, key)) i))
               (snd (find_leader s (ev_get (edge_vehicles s) (u, v, key)) i))
               (if \<not> can_proceed then 0 else speed_limit info) = Inr acc"
    and adv: "advance_vehicle (s\<lparr>edge_vehicles := ev_touch (edge_vehicles s) (u, v, key)\<rparr>) i
             ((store s i)\<lparr>waiting_at_signal := \<not> can_proceed,
                           speed := integrate_speed (speed (store s i)) acc (time_step s),
                           acceleration := acc\<rparr>)
             (u, v, key) (edge_length info)
             (integrate_speed (speed (store s i)) acc (time_step s) * time_step s) = Inr s'"
    by blast
  from advance_vehicle_speed[OF adv]
  have "acceleration (store s' i) = acc"
    "speed (store s' i) = integrate_speed (speed (store s i)) acc (time_step s)" by simp_all
  with gi cp acc show ?thesis by blast
qed

lemma update_vehicle_position_nonneg:
  assumes "update_vehicle_position s i = Inr s'" and "\<forall>j. 0 \<le> speed (store s j)"
  shows "\<forall>j. 0 \<le> speed (store s' j)"
proof
  fix j
  from update_vehicle_position_frame[OF assms(1)]
  have fr: "\<And>k. k \<noteq> i \<Longrightarrow> store s' k = store s k" by simp
  show "0 \<le> speed (store s' j)"
  proof (cases "j = i")
    case False
    with fr assms(2) show ?thesis by simp
  next
    case True
    show ?thesis
    proof (cases "2 \<le> length (route (store s i)) \<and> current_edge (store s i) \<noteq> None")
      case True
      then obtain u v key where ce: "current_edge (store s i) = Some (u, v, key)" by auto
      from update_vehicle_position_speed[OF assms(1) _ ce] True \<open>j = i\<close>
      show ?thesis by (simp add: integrate_speed_nonneg)
    next
      case False
      with assms \<open>j = i\<close> show ?thesis
        by (auto simp: update_vehicle_position_def Let_def split: option.splits if_splits)
    qed
  qed
qed

lemma update_loop_nonneg:
  assumes "update_loop s ids rm = Inr (s', rm')" and "\<forall>j. 0 \<le> speed (store s j)"
  shows "\<forall>j. 0 \<le> speed (store s' j)"
  using assms
proof (induction ids arbitrary: s rm)
  case Nil
  then show ?case by simp
next
  case (Cons i ids)
  show ?case
  proof (cases "completed (store s i)")
    case True
    with Cons show ?thesis by simp
  next
    case False
    with Cons.prems obtain s1 where
      u: "update_vehicle_position s i = Inr s1" and l: "update_loop s1 ids rm = Inr (s', rm')"
      by (auto split: sum.splits)
    from Cons.IH[OF l update_vehicle_position_nonneg[OF u Cons.prems(2)]] show ?thesis .
  qed
qed

lemma remove_loop_store:
  "remove_loop s rm = Inr s' \<Longrightarrow> store s' = store s"
  by (induction rm arbitrary: s) (auto simp: Let_def split: if_splits)

lemma update_vehicles_nonneg:
  assumes "update_vehicles s = Inr s'" and "\<forall>j. 0 \<le> speed (store s j)"
  shows "\<forall>j. 0 \<le> speed (store s' j)"
proof -
  from assms(1) obtain s1 rm where l: "update_loop s (vehicles s) [] = Inr (s1, rm)"
    and r: "remove_loop s1 rm = Inr s'"
    by (auto simp: update_vehicles_def split: sum.splits)
  from update_loop_nonneg[OF l assms(2)] remove_loop_store[OF r] show ?thesis by simp
qed

lemma spawn_vehicle_nonneg:
  assumes "spawn_vehicle s vehicle_type orig dest z_aggr z_pol = Inr s'"
    and "\<forall>j. 0 \<le> speed (store s j)"
  shows "\<forall>j. 0 \<le> speed (store s' j)"
  using assms
  by (auto simp: spawn_vehicle_def Let_def Car_def Bus_def Truck_def Motorcycle_def
                 Vehicle_init_def split: sum.splits if_splits)

lemma advance_vehicle_effect:
  assumes "advance_vehicle m i veh (u, v, key) L d = Inr s'"
  shows "if d \<ge> L * 0.5
         then (case route_successor (route veh) v of
                 Some next_node \<Rightarrow>
                   current_edge (store s' i) = Some (v, next_node, 0)
                   \<and> completed (store s' i) = completed veh
                   \<and> edge_vehicles s'
                       = ev_append (ev_remove (edge_vehicles m) (u, v, key) i) (v, next_node, 0) i
               | None \<Rightarrow>
                   completed (store s' i) \<and> current_edge (store s' i) = current_edge veh
                   \<and> edge_vehicles s' = ev_remove (edge_vehicles m) (u, v, key) i)
         else current_edge (store s' i) = current_edge veh
              \<and> completed (store s' i) = completed veh
              \<and> edge_vehicles s' = edge_vehicles m"
  using assms
  by (auto simp: advance_vehicle_def route_successor_def update_position_def Let_def
                 less_diff_conv
           split: if_splits option.splits sum.splits)

text \<open>
  At a desired speed of 0 (a blocking signal) a moving vehicle with a positive maximum
  acceleration and a positive aggressiveness factor gets the lower bound of the clip; a
  vehicle at rest raises.
\<close>

lemma blocked_moving_vehicle_brakes:
  assumes "speed self \<noteq> 0" and "max_acceleration self > 0"
    and "0.5 + 0.5 * aggressiveness self > 0"
  shows "calculate_acceleration self ld ls 0
           = Inr (Num (min (max_acceleration self) (- max_deceleration self)))"
proof -
  have a: "np_mul (Fin (max_acceleration self))
             (np_sub (Fin 1) (np_power (np_div (Fin (speed self)) (Fin 0)) 4)) = MInf"
    using assms(1,2) by (simp add: np_sub_def)
  have b: "\<And>x. x = PInf \<or> (\<exists>r. x = Fin r) \<Longrightarrow>
             np_sub MInf (np_mul (Fin (max_acceleration self)) x) = MInf"
    using assms(2) by (auto simp: np_sub_def)
  have c: "\<And>x d. d > 0 \<Longrightarrow> x = PInf \<or> (\<exists>r. x = Fin r) \<Longrightarrow>
             np_power (np_div x (Fin d)) 2 = PInf \<or> (\<exists>r. np_power (np_div x (Fin d)) 2 = Fin r)"
    by auto
  have d: "\<And>m y. np_add (Fin m) (py_max0 y) = PInf \<or> (\<exists>r. np_add (Fin m) (py_max0 y) = Fin r)"
  proof -
    fix m y show "np_add (Fin m) (py_max0 y) = PInf \<or> (\<exists>r. np_add (Fin m) (py_max0 y) = Fin r)"
      by (cases y) auto
  qed
  have e: "np_mul MInf (Fin (0.5 + 0.5 * aggressiveness self)) = MInf"
    using assms(3) by simp
  show ?thesis
  proof (cases "\<exists>d s. ld = Some d \<and> ls = Some s \<and> d > 0")
    case True
    then obtain dd ss where l: "ld = Some dd" "ls = Some ss" "dd > 0" by blast
    show ?thesis
      using assms(1) b[OF c[OF l(3) d]] e
      by (simp add: calculate_acceleration_def Let_def a l del: np_mul.simps np_div.simps np_add.simps py_max0.simps np_power.simps)
  next
    case False
    then show ?thesis
      using assms(1) e
      by (auto simp: calculate_acceleration_def Let_def a split: option.splits
               simp del: np_mul.simps np_div.simps np_power.simps)
  qed
qed

lemma blocked_vehicle_at_rest_raises:
  "speed self = 0 \<Longrightarrow> calculate_acceleration self ld ls 0 = Inl ZeroDivisionError"
  by (simp add: calculate_acceleration_def)

text \<open>The definitions that evaluate the concrete configurations.\<close>

lemmas eval_defs = demo_sim_def TrafficSimulation_init_def find_route_def demo_network_def
  spawn_vehicle_def Let_def ev_append_def ev_get_def ev_touch_def ev_remove_def
  Car_def Vehicle_init_def np_clip_def np_sub_def update_vehicle_position_def
  get_edge_info_def signal_permits_def integrate_speed_def
  find_leader_def calculate_acceleration_def advance_vehicle_def get_node_position_def
  update_position_def VehicleStats_init_def update_vehicles_def
  demo_spawned_def demo_tick1_def

lemmas red_defs = demo_red_def demo_red_tick_def with_red_signal_def standard_signal_def
  standard_phases_def can_vehicle_proceed_def get_state_for_approach_def
  get_current_phase_def

text \<open>
  A pass before the red signal: the moving car brakes to rest and waits; in the pass
  after, the car is at rest, the division \<^verbatim>\<open>0.0 / 0.0\<close> raises, and the run ends.
\<close>

lemma red_signal_passes:
  "update_vehicles demo_red = Inr demo_red_tick
   \<and> speed (store demo_red 0) = 15
   \<and> acceleration (store demo_red_tick 0) = Num (- (9 / 2))
   \<and> speed (store demo_red_tick 0) = 0
   \<and> waiting_at_signal (store demo_red_tick 0)
   \<and> update_vehicles demo_red_tick = Inl ZeroDivisionError"
  by (simp add: eval_defs red_defs)

section \<open>Properties of spawning\<close>

text \<open>
  Claim C3, as stated, fails: a spawn whose route is empty does not increment the spawned
  counter. On the demonstration graph no path leaves the node nearest to \<open>(7, 7)\<close>, so
  the route is empty; the spawn returns the state with only the id counter advanced, and
  \<^verbatim>\<open>stats['vehicles_spawned']\<close> is 0 before and after.
\<close>

theorem unresolved_spawn_not_counted:
  "find_route (network (demo_sim 1)) (7, 7) (8, 8) = Inr []
   \<and> spawn_vehicle (demo_sim 1) ''car'' (7, 7) (8, 8) 0.5 0.5
       = Inr ((demo_sim 1)\<lparr>next_vehicle_id := 1\<rparr>)
   \<and> stats_vehicles_spawned (demo_sim 1) = 0
   \<and> stats_vehicles_spawned ((demo_sim 1)\<lparr>next_vehicle_id := 1\<rparr>) = 0"
  by (simp add: eval_defs)

text \<open>
  Claim C3, amended: when the route of a spawn intent is empty or has fewer than 2 nodes,
  the spawn is dropped without error: the call returns normally, it advances the
  vehicle-id counter and changes nothing else, so the spawned counter, the vehicle table,
  the vehicle objects and every occupancy list are unchanged; nothing is recorded from
  which the spawn could be retried.
\<close>

theorem unresolved_spawn_dropped:
  assumes "find_route (network s) orig dest = Inr rt" and "rt = [] \<or> length rt < 2"
  shows "spawn_vehicle s vehicle_type orig dest z_aggr z_pol
           = Inr (s\<lparr>next_vehicle_id := next_vehicle_id s + 1\<rparr>)"
  using assms by (auto simp: spawn_vehicle_def Let_def)

theorem unresolved_spawn_dropped_witness:
  "find_route (network (demo_sim 1)) (7, 7) (8, 8) = Inr []
   \<and> ([] = ([]::node list) \<or> length ([]::node list) < 2)
   \<and> spawn_vehicle (demo_sim 1) ''car'' (7, 7) (8, 8) 0.5 0.5
        = Inr ((demo_sim 1)\<lparr>next_vehicle_id := next_vehicle_id (demo_sim 1) + 1\<rparr>)"
proof -
  have h: "find_route (network (demo_sim 1)) (7, 7) (8, 8) = Inr []"
    by (simp add: demo_sim_def TrafficSimulation_init_def find_route_def demo_network_def)
  from unresolved_spawn_dropped[OF h, of "''car''" "0.5" "0.5"] h show ?thesis by simp
qed

section \<open>Properties of the speed integration and the edge transition\<close>

text \<open>
  Claim C1, as stated, fails: the speed is not bounded by the maximum speed of the
  vehicle's class. A car spawned at rest on the 54 km/h edge, updated once with a time
  step of 30 s, has speed 56.25 m/s, above its class maximum of 120 km/h = 100/3 m/s.
\<close>

theorem speed_exceeds_class_maximum:
  "spawn_vehicle (demo_sim 30) ''car'' (0, 0) (4, 3) 0.5 0.5 = Inr (demo_spawned 30 (4, 3))
   \<and> update_vehicles (demo_spawned 30 (4, 3)) = Inr (demo_tick1 30 (4, 3))
   \<and> speed (store (demo_spawned 30 (4, 3)) 0) = 0
   \<and> max_speed (store (demo_tick1 30 (4, 3)) 0) = 100 / 3
   \<and> speed (store (demo_tick1 30 (4, 3)) 0) = 225 / 4
   \<and> (225 / 4 :: real) > 100 / 3"
  by (simp add: eval_defs)

text \<open>
  Claim C1, amended: for every vehicle with a route and a current edge whose update
  returns, the acceleration stored is the clipped car-following acceleration, that is
  the result of \<^verbatim>\<open>calculate_acceleration\<close> for the leader found on the edge and for the
  desired speed (0 when the signal at the edge's end blocks, the edge's speed limit
  otherwise), and the new speed is \<open>max 0 (v + accel * \<Delta>t)\<close> (0 when that acceleration
  is NaN); there is no clamp at the class maximum. So speeds are never negative: if no
  vehicle object has a negative speed, none has after an update of one vehicle, after a
  whole pass of \<^verbatim>\<open>_update_vehicles\<close>, or after a spawn.
\<close>

theorem speed_integration_lower_bound_only:
  "(update_vehicle_position s i = Inr s1 \<and> 2 \<le> length (route (store s i))
      \<and> current_edge (store s i) = Some (u, v, key)
    \<longrightarrow> (\<exists>info can_proceed acc.
           get_edge_info (network s) u v key = Inr info
         \<and> signal_permits s v (edge_length info) (speed (store s i)) = Inr can_proceed
         \<and> calculate_acceleration ((store s i)\<lparr>waiting_at_signal := \<not> can_proceed\<rparr>)
               (fst (find_leader s (ev_get (edge_vehicles s) (u, v, key)) i))
               (snd (find_leader s (ev_get (edge_vehicles s) (u, v, key)) i))
               (if \<not> can_proceed then 0 else speed_limit info) = Inr acc
         \<and> acceleration (store s1 i) = acc
         \<and> speed (store s1 i)
             = (case acc of
                  Num a \<Rightarrow> max 0 (speed (store s i) + a * time_step s)
                | NotANumber \<Rightarrow> 0)))
   \<and> ((\<forall>j. 0 \<le> speed (store s j)) \<longrightarrow>
        (update_vehicle_position s i = Inr s1 \<longrightarrow> (\<forall>j. 0 \<le> speed (store s1 j)))
      \<and> (update_vehicles s = Inr s2 \<longrightarrow> (\<forall>j. 0 \<le> speed (store s2 j)))
      \<and> (spawn_vehicle s vehicle_type orig dest z_aggr z_pol = Inr s3
           \<longrightarrow> (\<forall>j. 0 \<le> speed (store s3 j))))"
proof (intro conjI impI)
  assume h: "update_vehicle_position s i = Inr s1 \<and> 2 \<le> length (route (store s i))
      \<and> current_edge (store s i) = Some (u, v, key)"
  from update_vehicle_position_acceleration[of s i s1 u v key] h
  show "\<exists>info can_proceed acc.
           get_edge_info (network s) u v key = Inr info
         \<and> signal_permits s v (edge_length info) (speed (store s i)) = Inr can_proceed
         \<and> calculate_acceleration ((store s i)\<lparr>waiting_at_signal := \<not> can_proceed\<rparr>)
               (fst (find_leader s (ev_get (edge_vehicles s) (u, v, key)) i))
               (snd (find_leader s (ev_get (edge_vehicles s) (u, v, key)) i))
               (if \<not> can_proceed then 0 else speed_limit info) = Inr acc
         \<and> acceleration (store s1 i) = acc
         \<and> speed (store s1 i)
             = (case acc of
                  Num a \<Rightarrow> max 0 (speed (store s i) + a * time_step s)
                | NotANumber \<Rightarrow> 0)"
    unfolding integrate_speed_def by blast
next
  assume "\<forall>j. 0 \<le> speed (store s j)" and "update_vehicle_position s i = Inr s1"
  then show "\<forall>j. 0 \<le> speed (store s1 j)"
    using update_vehicle_position_nonneg by blast
next
  assume "\<forall>j. 0 \<le> speed (store s j)" and "update_vehicles s = Inr s2"
  then show "\<forall>j. 0 \<le> speed (store s2 j)"
    using update_vehicles_nonneg by blast
next
  assume "\<forall>j. 0 \<le> speed (store s j)"
    and "spawn_vehicle s vehicle_type orig dest z_aggr z_pol = Inr s3"
  then show "\<forall>j. 0 \<le> speed (store s3 j)"
    using spawn_vehicle_nonneg by blast
qed

text \<open>
  The update of the car that approaches the red signal at 15 m/s with a time step of 8 s:
  the signal blocks, the acceleration is the hard brake \<open>- 4.5\<close>, the new speed is
  \<open>max 0 (15 - 4.5 * 8) = 0\<close>.
\<close>

theorem speed_integration_lower_bound_only_witness:
  "update_vehicle_position demo_red 0 = Inr demo_red_tick
   \<and> 2 \<le> length (route (store demo_red 0))
   \<and> current_edge (store demo_red 0) = Some (1, 2, 0)
   \<and> (\<forall>j. 0 \<le> speed (store demo_red j))
   \<and> update_vehicles demo_red = Inr demo_red_tick
   \<and> spawn_vehicle demo_red ''bus'' (0, 0) (0, 3) 0.3 0.7
        = Inr (case spawn_vehicle demo_red ''bus'' (0, 0) (0, 3) 0.3 0.7 of
                 Inr s \<Rightarrow> s | Inl e \<Rightarrow> demo_red)
   \<and> get_edge_info (network demo_red) 1 2 0
        = Inr \<lparr> speed_limit = 15, lanes = 2, road_type = ''residential'', edge_length = 300 \<rparr>
   \<and> signal_permits demo_red 2 300 (speed (store demo_red 0)) = Inr False
   \<and> calculate_acceleration ((store demo_red 0)\<lparr>waiting_at_signal := True\<rparr>)
        (fst (find_leader demo_red (ev_get (edge_vehicles demo_red) (1, 2, 0)) 0))
        (snd (find_leader demo_red (ev_get (edge_vehicles demo_red) (1, 2, 0)) 0))
        0 = Inr (Num (- (9 / 2)))
   \<and> acceleration (store demo_red_tick 0) = Num (- (9 / 2))
   \<and> speed (store demo_red 0) = 15
   \<and> speed (store demo_red_tick 0) = max 0 (15 + (- (9 / 2)) * time_step demo_red)
   \<and> speed (store demo_red_tick 0) = 0
   \<and> (\<forall>j. 0 \<le> speed (store demo_red_tick j))
   \<and> (\<forall>j. 0 \<le> speed (store (case spawn_vehicle demo_red ''bus'' (0, 0) (0, 3) 0.3 0.7 of
                 Inr s \<Rightarrow> s | Inl e \<Rightarrow> demo_red) j))"
proof -
  let ?s3 = "case spawn_vehicle demo_red ''bus'' (0, 0) (0, 3) 0.3 0.7 of
                 Inr s \<Rightarrow> s | Inl e \<Rightarrow> demo_red"
  have h1: "update_vehicle_position demo_red 0 = Inr demo_red_tick"
    by (simp add: eval_defs red_defs)
  have h2: "2 \<le> length (route (store demo_red 0))" by (simp add: eval_defs red_defs)
  have h3: "current_edge (store demo_red 0) = Some (1, 2, 0)" by (simp add: eval_defs red_defs)
  have h4: "\<forall>j. 0 \<le> speed (store demo_red j)" by (simp add: eval_defs red_defs)
  have h5: "update_vehicles demo_red = Inr demo_red_tick" by (simp add: eval_defs red_defs)
  have h6: "spawn_vehicle demo_red ''bus'' (0, 0) (0, 3) 0.3 0.7 = Inr ?s3"
    by (simp add: eval_defs red_defs Bus_def)
  have e1: "get_edge_info (network demo_red) 1 2 0
        = Inr \<lparr> speed_limit = 15, lanes = 2, road_type = ''residential'', edge_length = 300 \<rparr>"
    by (simp add: eval_defs red_defs)
  have e2: "signal_permits demo_red 2 300 (speed (store demo_red 0)) = Inr False"
    by (simp add: eval_defs red_defs)
  have e3: "calculate_acceleration ((store demo_red 0)\<lparr>waiting_at_signal := True\<rparr>)
        (fst (find_leader demo_red (ev_get (edge_vehicles demo_red) (1, 2, 0)) 0))
        (snd (find_leader demo_red (ev_get (edge_vehicles demo_red) (1, 2, 0)) 0))
        0 = Inr (Num (- (9 / 2)))"
    by (simp add: eval_defs red_defs)
  have e4: "speed (store demo_red 0) = 15" "time_step demo_red = 8"
    by (simp_all add: eval_defs red_defs)
  note t = speed_integration_lower_bound_only[of demo_red 0 demo_red_tick 1 2 0
             demo_red_tick "''bus''" "(0, 0)" "(0, 3)" "0.3" "0.7" ?s3]
  from t h1 h2 h3 obtain info can_proceed acc where
    o: "get_edge_info (network demo_red) 1 2 0 = Inr info"
       "signal_permits demo_red 2 (edge_length info) (speed (store demo_red 0)) = Inr can_proceed"
       "calculate_acceleration ((store demo_red 0)\<lparr>waiting_at_signal := \<not> can_proceed\<rparr>)
               (fst (find_leader demo_red (ev_get (edge_vehicles demo_red) (1, 2, 0)) 0))
               (snd (find_leader demo_red (ev_get (edge_vehicles demo_red) (1, 2, 0)) 0))
               (if \<not> can_proceed then 0 else speed_limit info) = Inr acc"
       "acceleration (store demo_red_tick 0) = acc"
       "speed (store demo_red_tick 0)
             = (case acc of
                  Num a \<Rightarrow> max 0 (speed (store demo_red 0) + a * time_step demo_red)
                | NotANumber \<Rightarrow> 0)"
    by blast
  from o(1) e1 have i: "info = \<lparr> speed_limit = 15, lanes = 2, road_type = ''residential'',
                                  edge_length = 300 \<rparr>" by simp
  from o(2) e2 i have c: "can_proceed = False" by simp
  from o(3) e3 c have a: "acc = Num (- (9 / 2))" by simp
  from o(4) a have r1: "acceleration (store demo_red_tick 0) = Num (- (9 / 2))" by simp
  from o(5) a e4 have r2: "speed (store demo_red_tick 0) = max 0 (15 + (- (9 / 2)) * time_step demo_red)"
    by simp
  then have r3: "speed (store demo_red_tick 0) = 0" using e4 by simp
  from t h4 h5 have r4: "\<forall>j. 0 \<le> speed (store demo_red_tick j)" by blast
  from t h4 h6 have r5: "\<forall>j. 0 \<le> speed (store ?s3 j)" by blast
  from h1 h2 h3 h4 h5 h6 e1 e2 e3 r1 e4(1) r2 r3 r4 r5 show ?thesis by (intro conjI)
qed

text \<open>
  Claim C2, as stated, fails: the transition test does not look at cumulative progress.
  With a time step of 8 s the car moves 120 m in each of its first two ticks on the 300 m
  edge; after the second tick its progress on the edge is 240 m, beyond 50% of the
  edge's length, and the car is still on that edge's list, not on the next edge's, and
  not completed.
\<close>

theorem cumulative_progress_no_transition:
  "spawn_vehicle (demo_sim 8) ''car'' (0, 0) (4, 3) 0.5 0.5 = Inr (demo_spawned 8 (4, 3))
   \<and> update_vehicles (demo_spawned 8 (4, 3)) = Inr (demo_tick1 8 (4, 3))
   \<and> update_vehicles (demo_tick1 8 (4, 3)) = Inr (demo_tick2 8 (4, 3))
   \<and> get_edge_info demo_network 1 2 0
        = Inr \<lparr> speed_limit = 15, lanes = 2, road_type = ''residential'', edge_length = 300 \<rparr>
   \<and> speed (store (demo_tick1 8 (4, 3)) 0) * 8 = 120
   \<and> speed (store (demo_tick2 8 (4, 3)) 0) * 8 = 120
   \<and> (120::real) + 120 \<ge> 0.5 * 300
   \<and> current_edge (store (demo_tick2 8 (4, 3)) 0) = Some (1, 2, 0)
   \<and> \<not> completed (store (demo_tick2 8 (4, 3)) 0)
   \<and> ev_get (edge_vehicles (demo_tick2 8 (4, 3))) (1, 2, 0) = [0]
   \<and> ev_get (edge_vehicles (demo_tick2 8 (4, 3))) (2, 3, 0) = []"
  by (simp add: eval_defs demo_tick2_def)

text \<open>
  Claim C2, amended: a vehicle changes edge in a tick exactly when the distance it moves
  in that tick, its new speed times the time step, is at least 50% of the length of its
  current edge. Then its first occurrence is removed from the current edge's occupancy
  list and, if a node follows the first occurrence of the edge's end node on its route,
  it is appended to the list of the edge to that node, which becomes its current edge;
  otherwise (the end node is the route's last node, or is not on the route) it is marked
  completed and appended to no list. When the distance is smaller, its edge, its
  completion flag and every occupancy list are unchanged.
\<close>

theorem edge_transition_by_tick_distance:
  assumes "update_vehicle_position s i = Inr s'"
    and "2 \<le> length (route (store s i))"
    and "current_edge (store s i) = Some (u, v, key)"
    and "get_edge_info (network s) u v key = Inr info"
  shows "let detached = (\<lambda>e. if e = (u, v, key) then remove1 i (ev_get (edge_vehicles s) e)
                              else ev_get (edge_vehicles s) e)
         in if speed (store s' i) * time_step s \<ge> edge_length info * 0.5
            then (case route_successor (route (store s i)) v of
                    Some next_node \<Rightarrow>
                      current_edge (store s' i) = Some (v, next_node, 0)
                      \<and> completed (store s' i) = completed (store s i)
                      \<and> (\<forall>e. ev_get (edge_vehicles s') e
                                = (if e = (v, next_node, 0) then detached e @ [i]
                                   else detached e))
                  | None \<Rightarrow>
                      completed (store s' i)
                      \<and> current_edge (store s' i) = Some (u, v, key)
                      \<and> (\<forall>e. ev_get (edge_vehicles s') e = detached e))
            else current_edge (store s' i) = Some (u, v, key)
                 \<and> completed (store s' i) = completed (store s i)
                 \<and> (\<forall>e. ev_get (edge_vehicles s') e = ev_get (edge_vehicles s) e)"
proof -
  from update_vehicle_position_unfold[OF assms(1-3)] assms(4)
  obtain waiting acc where
    adv: "advance_vehicle (s\<lparr>edge_vehicles := ev_touch (edge_vehicles s) (u, v, key)\<rparr>) i
             ((store s i)\<lparr>waiting_at_signal := waiting,
                           speed := integrate_speed (speed (store s i)) acc (time_step s),
                           acceleration := acc\<rparr>)
             (u, v, key) (edge_length info)
             (integrate_speed (speed (store s i)) acc (time_step s) * time_step s) = Inr s'"
    by auto
  from advance_vehicle_speed[OF adv]
  have sp: "speed (store s' i) = integrate_speed (speed (store s i)) acc (time_step s)"
    by simp
  from advance_vehicle_effect[OF adv] show ?thesis
    unfolding sp Let_def
    by (auto simp: assms(3) ev_get_append ev_get_remove split: option.splits if_splits)
qed

theorem edge_transition_by_tick_distance_witness:
  "update_vehicle_position (demo_spawned 30 (4, 3)) 0 = Inr (demo_tick1 30 (4, 3))
   \<and> 2 \<le> length (route (store (demo_spawned 30 (4, 3)) 0))
   \<and> current_edge (store (demo_spawned 30 (4, 3)) 0) = Some (1, 2, 0)
   \<and> get_edge_info (network (demo_spawned 30 (4, 3))) 1 2 0
        = Inr \<lparr> speed_limit = 15, lanes = 2, road_type = ''residential'', edge_length = 300 \<rparr>
   \<and> speed (store (demo_tick1 30 (4, 3)) 0) * time_step (demo_spawned 30 (4, 3)) \<ge> 300 * 0.5
   \<and> route_successor (route (store (demo_spawned 30 (4, 3)) 0)) 2 = Some 3
   \<and> current_edge (store (demo_tick1 30 (4, 3)) 0) = Some (2, 3, 0)
   \<and> completed (store (demo_tick1 30 (4, 3)) 0) = completed (store (demo_spawned 30 (4, 3)) 0)
   \<and> (\<forall>e. ev_get (edge_vehicles (demo_tick1 30 (4, 3))) e = (if e = (2, 3, 0) then [0] else []))"
proof -
  have h1: "update_vehicle_position (demo_spawned 30 (4, 3)) 0 = Inr (demo_tick1 30 (4, 3))"
    by (simp add: eval_defs)
  have h2: "2 \<le> length (route (store (demo_spawned 30 (4, 3)) 0))"
    by (simp add: eval_defs)
  have h3: "current_edge (store (demo_spawned 30 (4, 3)) 0) = Some (1, 2, 0)"
    by (simp add: eval_defs)
  have h4: "get_edge_info (network (demo_spawned 30 (4, 3))) 1 2 0
        = Inr \<lparr> speed_limit = 15, lanes = 2, road_type = ''residential'', edge_length = 300 \<rparr>"
    by (simp add: eval_defs)
  have c: "speed (store (demo_tick1 30 (4, 3)) 0) * time_step (demo_spawned 30 (4, 3)) \<ge> 300 * 0.5"
    by (simp add: eval_defs)
  have r: "route_successor (route (store (demo_spawned 30 (4, 3)) 0)) 2 = Some 3"
    by (simp add: eval_defs route_successor_def)
  have l: "\<And>e. ev_get (edge_vehicles (demo_spawned 30 (4, 3))) e = (if e = (1, 2, 0) then [0] else [])"
    by (simp add: eval_defs)
  from edge_transition_by_tick_distance[OF h1 h2 h3 h4]
  have "current_edge (store (demo_tick1 30 (4, 3)) 0) = Some (2, 3, 0)
   \<and> completed (store (demo_tick1 30 (4, 3)) 0) = completed (store (demo_spawned 30 (4, 3)) 0)
   \<and> (\<forall>e. ev_get (edge_vehicles (demo_tick1 30 (4, 3))) e = (if e = (2, 3, 0) then [0] else []))"
    using c by (simp add: r l Let_def)
  with h1 h2 h3 h4 c r show ?thesis by simp
qed

section \<open>Properties of the congestion level\<close>

text \<open>
  Claim C5: the congestion level is documented as a value between 0 and 1, and the function
  clamps it from above only. After the car of the demonstration has entered the 700 m
  edge with the 10 m/s limit at 56.25 m/s, the level of that edge is
  \<open>0.6 * (1 / 100) + 0.4 * (1 - 5.625) = - 1.844\<close>, below 0.
\<close>

theorem congestion_level_negative:
  "spawn_vehicle (demo_sim 30) ''car'' (0, 0) (4, 3) 0.5 0.5 = Inr (demo_spawned 30 (4, 3))
   \<and> update_vehicles (demo_spawned 30 (4, 3)) = Inr (demo_tick1 30 (4, 3))
   \<and> get_congestion_level (demo_tick1 30 (4, 3)) (2, 3, 0) = Inr (- (461 / 250))
   \<and> - (461 / 250) < (0::real)"
  by (simp add: eval_defs get_congestion_level_def)

section \<open>The occupancy invariant\<close>

text \<open>
  Claim C8, as stated, fails when the active vehicles are those of the vehicle table:
  a vehicle that completes its route is flagged and taken off its edge's list in one
  pass of \<^verbatim>\<open>_update_vehicles\<close>, and leaves the table only in the next pass. After the
  pass in which the car of the short trip completes, the table still holds it, with
  its current edge set, and it is on no occupancy list: the sum of the occupancy counts
  is 0, the number of vehicles of the table with a current edge is 1.
\<close>

theorem completed_vehicle_lingers:
  "spawn_vehicle (demo_sim 30) ''car'' (0, 0) (0, 3) 0.5 0.5 = Inr (demo_spawned 30 (0, 3))
   \<and> update_vehicles (demo_spawned 30 (0, 3)) = Inr (demo_tick1 30 (0, 3))
   \<and> vehicles (demo_tick1 30 (0, 3)) = [0]
   \<and> completed_vehicles (demo_tick1 30 (0, 3)) = []
   \<and> current_edge (store (demo_tick1 30 (0, 3)) 0) = Some (1, 2, 0)
   \<and> ev_get (edge_vehicles (demo_tick1 30 (0, 3))) (1, 2, 0) = []
   \<and> occupancy_total (demo_tick1 30 (0, 3)) = 0
   \<and> length (filter (\<lambda>i. current_edge (store (demo_tick1 30 (0, 3)) i) \<noteq> None)
                     (vehicles (demo_tick1 30 (0, 3)))) = 1"
  by (simp add: eval_defs occupancy_total_def)

text \<open>
  Claim C8, amended: the invariant \<open>occupancy_inv\<close> holds initially and is preserved by a
  spawn, by the update of a vehicle that is not flagged completed, and by a whole pass of
  \<^verbatim>\<open>_update_vehicles\<close>. Under it, every vehicle is on at most one occupancy list and
  at most once, the lists hold only vehicles of the table that are not flagged
  completed, each such vehicle has a current edge and is on that edge's list, and the
  sum of the per-edge occupancy counts equals the number of vehicles of the table that
  are not flagged completed.
\<close>

theorem occupancy_invariant:
  "occupancy_inv (TrafficSimulation_init dt net sigs)
   \<and> (occupancy_inv s \<longrightarrow>
        distinct (concat (map snd (edge_vehicles s)))
      \<and> (\<forall>e e'. e \<noteq> e' \<longrightarrow>
            set (ev_get (edge_vehicles s) e) \<inter> set (ev_get (edge_vehicles s) e') = {})
      \<and> (\<forall>e. set (ev_get (edge_vehicles s) e) \<subseteq> set (active_ids s))
      \<and> (\<forall>i \<in> set (active_ids s).
            \<exists>e. current_edge (store s i) = Some e \<and> i \<in> set (ev_get (edge_vehicles s) e))
      \<and> occupancy_total s = length (active_ids s)
      \<and> (\<forall>s'. spawn_vehicle s vehicle_type orig dest z_aggr z_pol = Inr s' \<longrightarrow> occupancy_inv s')
      \<and> (\<forall>i s'. i \<in> set (active_ids s) \<and> update_vehicle_position s i = Inr s'
                  \<longrightarrow> occupancy_inv s')
      \<and> (\<forall>s'. update_vehicles s = Inr s' \<longrightarrow> occupancy_inv s'))"
proof (intro conjI impI allI ballI)
  show "occupancy_inv (TrafficSimulation_init dt net sigs)" by (rule init_inv)
next
  assume inv: "occupancy_inv s"
  show "distinct (concat (map snd (edge_vehicles s)))" by (rule inv_consequences(1)[OF inv])
next
  fix e e' :: edge
  assume inv: "occupancy_inv s" and "e \<noteq> e'"
  then show "set (ev_get (edge_vehicles s) e) \<inter> set (ev_get (edge_vehicles s) e') = {}"
    by (rule inv_consequences(4))
next
  fix e assume inv: "occupancy_inv s"
  show "set (ev_get (edge_vehicles s) e) \<subseteq> set (active_ids s)"
    by (rule inv_consequences(6)[OF inv])
next
  fix i assume inv: "occupancy_inv s" and "i \<in> set (active_ids s)"
  then show "\<exists>e. current_edge (store s i) = Some e \<and> i \<in> set (ev_get (edge_vehicles s) e)"
    by (rule inv_consequences(5))
next
  assume inv: "occupancy_inv s"
  show "occupancy_total s = length (active_ids s)" by (rule inv_consequences(2)[OF inv])
next
  fix s' assume "occupancy_inv s"
    and "spawn_vehicle s vehicle_type orig dest z_aggr z_pol = Inr s'"
  then show "occupancy_inv s'" by (rule spawn_vehicle_inv)
next
  fix i s' assume inv: "occupancy_inv s"
    and h: "i \<in> set (active_ids s) \<and> update_vehicle_position s i = Inr s'"
  show "occupancy_inv s'"
    by (rule update_vehicle_position_inv[OF inv conjunct1[OF h] conjunct2[OF h]])
next
  fix s' assume "occupancy_inv s" and "update_vehicles s = Inr s'"
  then show "occupancy_inv s'" by (rule update_vehicles_inv)
qed

text \<open>
  The invariant at the state before the red signal, through the pass in which the signal
  blocks the car, and through a spawn.
\<close>

theorem occupancy_invariant_witness:
  "occupancy_inv demo_red
   \<and> 0 \<in> set (active_ids demo_red)
   \<and> update_vehicle_position demo_red 0 = Inr demo_red_tick
   \<and> update_vehicles demo_red = Inr demo_red_tick
   \<and> spawn_vehicle demo_red ''bus'' (0, 0) (0, 3) 0.3 0.7
        = Inr (case spawn_vehicle demo_red ''bus'' (0, 0) (0, 3) 0.3 0.7 of
                 Inr s \<Rightarrow> s | Inl e \<Rightarrow> demo_red)
   \<and> (1, 2, 0) \<noteq> ((2, 3, 0) :: edge)
   \<and> set (ev_get (edge_vehicles demo_red) (1, 2, 0))
       \<inter> set (ev_get (edge_vehicles demo_red) (2, 3, 0)) = {}
   \<and> occupancy_total demo_red = length (active_ids demo_red)
   \<and> occupancy_total demo_red = 1
   \<and> waiting_at_signal (store demo_red_tick 0)
   \<and> occupancy_inv demo_red_tick
   \<and> occupancy_inv (case spawn_vehicle demo_red ''bus'' (0, 0) (0, 3) 0.3 0.7 of
                       Inr s \<Rightarrow> s | Inl e \<Rightarrow> demo_red)"
proof -
  let ?s = "demo_red"
  let ?s3 = "case spawn_vehicle ?s ''bus'' (0, 0) (0, 3) 0.3 0.7 of
                 Inr s \<Rightarrow> s | Inl e \<Rightarrow> ?s"
  have h0: "occupancy_inv ?s"
    by (simp add: eval_defs red_defs occupancy_inv_def active_ids_def)
  have h1: "0 \<in> set (active_ids ?s)" by (simp add: eval_defs red_defs active_ids_def)
  have h2: "update_vehicle_position ?s 0 = Inr demo_red_tick"
    by (simp add: eval_defs red_defs)
  have h3: "update_vehicles ?s = Inr demo_red_tick" by (simp add: eval_defs red_defs)
  have h4: "spawn_vehicle ?s ''bus'' (0, 0) (0, 3) 0.3 0.7 = Inr ?s3"
    by (simp add: eval_defs red_defs Bus_def)
  have h5: "(1, 2, 0) \<noteq> ((2, 3, 0) :: edge)" by simp
  have h6: "occupancy_total ?s = 1" by (simp add: eval_defs red_defs occupancy_total_def)
  have h7: "waiting_at_signal (store demo_red_tick 0)" by (simp add: eval_defs red_defs)
  note t = occupancy_invariant[of 30 demo_network Map.empty ?s "''bus''" "(0, 0)" "(0, 3)"
             "0.3" "0.7"]
  from t have "occupancy_inv ?s \<longrightarrow>
        distinct (concat (map snd (edge_vehicles ?s)))
      \<and> (\<forall>e e'. e \<noteq> e' \<longrightarrow>
            set (ev_get (edge_vehicles ?s) e) \<inter> set (ev_get (edge_vehicles ?s) e') = {})
      \<and> (\<forall>e. set (ev_get (edge_vehicles ?s) e) \<subseteq> set (active_ids ?s))
      \<and> (\<forall>i \<in> set (active_ids ?s).
            \<exists>e. current_edge (store ?s i) = Some e \<and> i \<in> set (ev_get (edge_vehicles ?s) e))
      \<and> occupancy_total ?s = length (active_ids ?s)
      \<and> (\<forall>s'. spawn_vehicle ?s ''bus'' (0, 0) (0, 3) 0.3 0.7 = Inr s' \<longrightarrow> occupancy_inv s')
      \<and> (\<forall>i s'. i \<in> set (active_ids ?s) \<and> update_vehicle_position ?s i = Inr s'
                  \<longrightarrow> occupancy_inv s')
      \<and> (\<forall>s'. update_vehicles ?s = Inr s' \<longrightarrow> occupancy_inv s')"
    by (rule conjunct2)
  from mp[OF this h0] have
    c2: "\<forall>e e'. e \<noteq> e' \<longrightarrow>
            set (ev_get (edge_vehicles ?s) e) \<inter> set (ev_get (edge_vehicles ?s) e') = {}"
    by (elim conjE)
  from mp[OF \<open>occupancy_inv ?s \<longrightarrow> _\<close> h0] have
    c5: "occupancy_total ?s = length (active_ids ?s)"
    by (elim conjE)
  from mp[OF \<open>occupancy_inv ?s \<longrightarrow> _\<close> h0] have
    c6: "\<forall>s'. spawn_vehicle ?s ''bus'' (0, 0) (0, 3) 0.3 0.7 = Inr s' \<longrightarrow> occupancy_inv s'"
    by (elim conjE)
  from mp[OF \<open>occupancy_inv ?s \<longrightarrow> _\<close> h0] have
    c8: "\<forall>s'. update_vehicles ?s = Inr s' \<longrightarrow> occupancy_inv s'"
    by (elim conjE)
  from c2 h5 have d: "set (ev_get (edge_vehicles ?s) (1, 2, 0))
       \<inter> set (ev_get (edge_vehicles ?s) (2, 3, 0)) = {}" by blast
  from c6 h4 have i3: "occupancy_inv ?s3" by blast
  from c8 h3 have i1: "occupancy_inv demo_red_tick" by blast
  from h0 h1 h2 h3 h4 h5 d c5 h6 h7 i1 i3 show ?thesis by (intro conjI)
qed

end
